theory Spec2Isabelle
  imports Main "HOL-Library.Sublist"
begin

section \<open>Python string helpers used by both modules\<close>

text \<open>\<^verbatim>\<open>str.startswith\<close> and \<^verbatim>\<open>str.removeprefix\<close> (Python 3.9 and later).\<close>

definition startswith :: "string \<Rightarrow> string \<Rightarrow> bool" where
  "startswith s p = (take (length p) s = p)"

definition removeprefix :: "string \<Rightarrow> string \<Rightarrow> string" where
  "removeprefix s p = (if startswith s p then drop (length p) s else s)"

text \<open>
  The scheme stripping is written twice in the source, with the same text:
  \<^verbatim>\<open>parser.py\<close> lines 61-64 (on \<^verbatim>\<open>url\<close>) and \<^verbatim>\<open>database.py\<close> lines 83-86 (on \<^verbatim>\<open>link\<close>).
  \<^verbatim>\<open>
  if url.startswith('https://'):
      url = url.removeprefix('https://')
  elif url.startswith('http://'):
      url = url.removeprefix('http://')
  \<close>
\<close>

definition strip_scheme :: "string \<Rightarrow> string" where
  "strip_scheme url =
     (if startswith url ''https://'' then removeprefix url ''https://''
      else if startswith url ''http://'' then removeprefix url ''http://''
      else url)"

section \<open>database.py\<close>

subsection \<open>Tables\<close>

text \<open>
  The two tables of \<^verbatim>\<open>models.py\<close> as the code of \<^verbatim>\<open>database.py\<close> reads and writes
  them: a channel row holds \<^verbatim>\<open>id\<close>, \<^verbatim>\<open>name\<close>, \<^verbatim>\<open>description\<close>, \<^verbatim>\<open>link\<close>; a statistics
  row holds the foreign key \<^verbatim>\<open>channel\<close>, the three counters and \<^verbatim>\<open>recorded_at\<close>.
  Times are POSIX timestamps in microseconds, the resolution of a Python \<^verbatim>\<open>datetime\<close>.
\<close>

record channel_row =
  row_id :: int
  row_name :: string
  row_description :: string
  row_link :: string

record statistics_row =
  stat_channel :: int
  stat_subscribers :: int
  stat_views_24h :: int
  stat_posts_count :: int
  stat_recorded_at :: int

record database =
  channels :: "channel_row list"
  statistics :: "statistics_row list"

text \<open>
  \<^verbatim>\<open>shared_models.Channel\<close>, the value both services exchange. The package is not
  among the sources; the record has the fields the two modules pass and read, and
  building one does not fail.
\<close>

record ChannelInfo =
  channel_id :: int
  link :: string
  name :: string
  description :: string
  subscribers :: int
  views :: int
  posts_count :: int

record GetChannelResponse =
  last_update :: int
  db_channel :: ChannelInfo

text \<open>The key an error of the persistence layer carries: a channel id or a link.\<close>

datatype db_key = ById int | ByLink string

datatype db_error =
    DoesNotExist
  | MultipleObjectsReturned
  | ChannelDoesNotExistError db_key
  | StatsDoesNotExistError db_key

subsection \<open>The ORM calls the code makes\<close>

text \<open>
  \<^verbatim>\<open>Model.get(...)\<close>: the one row that matches; \<^verbatim>\<open>DoesNotExist\<close> when none does,
  \<^verbatim>\<open>MultipleObjectsReturned\<close> when several do.
\<close>

definition orm_get :: "('r \<Rightarrow> bool) \<Rightarrow> 'r list \<Rightarrow> db_error + 'r" where
  "orm_get p rows =
     (case filter p rows of
        [] \<Rightarrow> Inl DoesNotExist
      | [r] \<Rightarrow> Inr r
      | _ \<Rightarrow> Inl MultipleObjectsReturned)"

text \<open>\<^verbatim>\<open>QuerySet.first()\<close>: the first row or \<^verbatim>\<open>None\<close>.\<close>

definition first :: "'r list \<Rightarrow> 'r option" where
  "first rows = (case rows of [] \<Rightarrow> None | r # _ \<Rightarrow> Some r)"

text \<open>
  \<^verbatim>\<open>ChannelStatistics.filter(channel=channel).order_by("-recorded_at")\<close>: the statistics
  of one channel, newest first (rows recorded at the same instant keep insertion order).
\<close>

definition stats_newest_first :: "database \<Rightarrow> channel_row \<Rightarrow> statistics_row list" where
  "stats_newest_first db ch =
     sort_key (\<lambda>s. - stat_recorded_at s)
       (filter (\<lambda>s. stat_channel s = row_id ch) (statistics db))"

text \<open>\<^verbatim>\<open>int(dt.timestamp())\<close>: whole seconds, truncated towards zero.\<close>

definition timestamp_seconds :: "int \<Rightarrow> int" where
  "timestamp_seconds us = (if 0 \<le> us then us div 1000000 else - ((- us) div 1000000))"

subsection \<open>update_or_create_channel\<close>

text \<open>
  \<^verbatim>\<open>Channel.update_or_create(id=..., defaults={...})\<close>: the row with that id is updated
  with the defaults when it exists and created from them otherwise; the flag says which.
\<close>

definition set_defaults :: "ChannelInfo \<Rightarrow> channel_row \<Rightarrow> channel_row" where
  "set_defaults c r =
     r\<lparr>row_name := name c, row_description := description c, row_link := link c\<rparr>"

definition Channel_update_or_create ::
  "ChannelInfo \<Rightarrow> database \<Rightarrow> (db_error + channel_row \<times> bool) \<times> database" where
  "Channel_update_or_create c db =
     (case orm_get (\<lambda>r. row_id r = channel_id c) (channels db) of
        Inr r \<Rightarrow>
          (Inr (set_defaults c r, False),
           db\<lparr>channels :=
                 map (\<lambda>r'. if row_id r' = channel_id c then set_defaults c r' else r')
                   (channels db)\<rparr>)
      | Inl DoesNotExist \<Rightarrow>
          (let r = \<lparr>row_id = channel_id c, row_name = name c,
                    row_description = description c, row_link = link c\<rparr>
           in (Inr (r, True), db\<lparr>channels := channels db @ [r]\<rparr>))
      | Inl e \<Rightarrow> (Inl e, db))"

text \<open>
  \<^verbatim>\<open>ChannelStatistics.create(channel=result, ...)\<close> appends one row; \<^verbatim>\<open>now\<close> is the clock
  reading the row's \<^verbatim>\<open>recorded_at\<close> gets.
\<close>

definition ChannelStatistics_create ::
  "int \<Rightarrow> channel_row \<Rightarrow> ChannelInfo \<Rightarrow> database \<Rightarrow> database" where
  "ChannelStatistics_create now r c db =
     db\<lparr>statistics := statistics db @
          [\<lparr>stat_channel = row_id r, stat_subscribers = subscribers c,
            stat_views_24h = views c, stat_posts_count = posts_count c,
            stat_recorded_at = now\<rparr>]\<rparr>"

text \<open>The response is \<^verbatim>\<open>UpdateOrCreateChannelResponse(record_created=created)\<close>.\<close>

definition update_or_create_channel ::
  "int \<Rightarrow> ChannelInfo \<Rightarrow> database \<Rightarrow> (db_error + bool) \<times> database" where
  "update_or_create_channel now c db =
     (case Channel_update_or_create c db of
        (Inl e, db1) \<Rightarrow> (Inl e, db1)
      | (Inr (result, created), db1) \<Rightarrow>
          (Inr created, ChannelStatistics_create now result c db1))"

subsection \<open>get_channel and get_channel_by_link\<close>

definition channel_response :: "channel_row \<Rightarrow> statistics_row \<Rightarrow> GetChannelResponse" where
  "channel_response ch st =
     \<lparr>last_update = timestamp_seconds (stat_recorded_at st),
      db_channel = \<lparr>channel_id = row_id ch, link = row_link ch, name = row_name ch,
                    description = row_description ch, subscribers = stat_subscribers st,
                    views = stat_views_24h st, posts_count = stat_posts_count st\<rparr>\<rparr>"

text \<open>\<^verbatim>\<open>Database.get_channel\<close>; the parser has a method of the same name.\<close>

definition Database_get_channel :: "database \<Rightarrow> int \<Rightarrow> db_error + GetChannelResponse" where
  "Database_get_channel db request_channel_id =
     (case orm_get (\<lambda>r. row_id r = request_channel_id) (channels db) of
        Inl DoesNotExist \<Rightarrow> Inl (ChannelDoesNotExistError (ById request_channel_id))
      | Inl e \<Rightarrow> Inl e
      | Inr ch \<Rightarrow>
          (case first (stats_newest_first db ch) of
             None \<Rightarrow> Inl (StatsDoesNotExistError (ById request_channel_id))
           | Some st \<Rightarrow> Inr (channel_response ch st)))"

definition get_channel_by_link :: "database \<Rightarrow> string \<Rightarrow> db_error + GetChannelResponse" where
  "get_channel_by_link db request_channel_link =
     (let link = strip_scheme request_channel_link in
      case orm_get (\<lambda>r. row_link r = link) (channels db) of
        Inl DoesNotExist \<Rightarrow> Inl (ChannelDoesNotExistError (ByLink link))
      | Inl e \<Rightarrow> Inl e
      | Inr ch \<Rightarrow>
          (case first (stats_newest_first db ch) of
             None \<Rightarrow> Inl (StatsDoesNotExistError (ByLink link))
           | Some st \<Rightarrow> Inr (channel_response ch st)))"

section \<open>parser.py\<close>

subsection \<open>Exceptions\<close>

text \<open>
  What a call into a library (telethon, asyncio) raises. Each carries the text
  \<^verbatim>\<open>str(e)\<close> gives; \<^verbatim>\<open>FloodWaitError\<close> also carries \<^verbatim>\<open>e.seconds\<close>. \<open>OtherError\<close>
  stands for every other subclass of \<^verbatim>\<open>Exception\<close> a call can raise.
\<close>

datatype lib_error =
    ValueError string
  | UserAlreadyParticipantError string
  | InviteRequestSentError string
  | InviteHashExpiredError string
  | UserDeactivatedBanError string
  | FloodWaitError int string
  | asyncio_TimeoutError string
  | OtherError string

fun str :: "lib_error \<Rightarrow> string" where
  "str (ValueError m) = m"
| "str (UserAlreadyParticipantError m) = m"
| "str (InviteRequestSentError m) = m"
| "str (InviteHashExpiredError m) = m"
| "str (UserDeactivatedBanError m) = m"
| "str (FloodWaitError s m) = m"
| "str (asyncio_TimeoutError m) = m"
| "str (OtherError m) = m"

text \<open>
  Everything that can leave a coroutine of the parser: a library exception as it
  is, \<^verbatim>\<open>asyncio.CancelledError\<close> (a \<^verbatim>\<open>BaseException\<close>, so \<^verbatim>\<open>except Exception\<close> lets
  it pass), the four errors of \<^verbatim>\<open>shared_models.parser.errors\<close>, and the builtin
  \<^verbatim>\<open>TimeoutError\<close> that \<^verbatim>\<open>get_channel_info\<close> raises with a message of its own.
\<close>

datatype exn =
    Library lib_error
  | CancelledError
  | FloodWait int
  | InvalidChannelLink string string
  | UserBan string
  | CannotGetChannelInfo string
  | TimeoutError string

subsection \<open>Values of the remote platform\<close>

text \<open>
  A \<^verbatim>\<open>datetime\<close>: the wall-clock reading in microseconds and the offset of its
  zone from UTC (\<open>None\<close> for a naive value).
\<close>

record datetime =
  wall :: int
  tzinfo :: "int option"

record entity =
  entity_id :: int
  title :: string

record full_chat =
  full_chat_id :: int
  about :: string
  participants_count :: int

record post =
  date :: datetime
  post_views :: "int option"

type_synonym bytes = string

subsection \<open>The world a coroutine runs in\<close>

datatype request =
    GetEntity string
  | ImportChatInviteRequest string
  | GetFullChannelRequest entity
  | NextMessage
  | DownloadProfilePhoto entity
  | Sleep nat

datatype outcome = Ok | Failed lib_error | Cancelled

datatype event = Ev request outcome

text \<open>
  \<open>clock\<close> is the POSIX time in microseconds; \<open>deadline\<close> is the instant at which an
  enclosing \<^verbatim>\<open>asyncio.wait_for\<close> cancels the running coroutine; \<open>lookups\<close> counts the
  \<^verbatim>\<open>get_entity\<close> calls made; \<open>trace\<close> lists every awaited operation with how it
  ended, oldest first; \<open>marked\<close> counts the \<^verbatim>\<open>mark_as_ban\<close> calls on the session
  handle; \<open>released\<close> counts the handles given back; \<open>local_zone\<close> is the
  offset from UTC, in microseconds, of the time zone the process runs in, which
  \<^verbatim>\<open>timestamp()\<close> gives a naive \<^verbatim>\<open>datetime\<close>.
\<close>

record world =
  clock :: int
  deadline :: "int option"
  lookups :: nat
  trace :: "event list"
  marked :: nat
  released :: nat
  local_zone :: int

text \<open>
  The remote platform as the activated \<^verbatim>\<open>TelegramClient\<close> shows it: for each call,
  how long the answer takes (microseconds) and what it is. \<^verbatim>\<open>get_entity\<close> is called
  several times in one request, so its answer also depends on how many lookups
  came before. \<^verbatim>\<open>iter_messages\<close> yields posts one by one until the list ends or
  an item raises.
\<close>

record TelegramClient =
  get_entity_reply :: "nat \<Rightarrow> string \<Rightarrow> nat \<times> (lib_error + entity option)"
  import_chat_invite_reply :: "string \<Rightarrow> nat \<times> (lib_error + unit)"
  get_full_channel_reply :: "entity \<Rightarrow> nat \<times> (lib_error + full_chat)"
  iter_messages_reply :: "entity \<Rightarrow> int \<Rightarrow> (nat \<times> (lib_error + post)) list"
  download_profile_photo_reply :: "entity \<Rightarrow> nat \<times> (lib_error + bytes option)"

type_synonym 'a io = "world \<Rightarrow> (exn + 'a) \<times> world"

definition return :: "'a \<Rightarrow> 'a io" where
  "return x w = (Inr x, w)"

definition raise :: "exn \<Rightarrow> 'a io" where
  "raise e w = (Inl e, w)"

text \<open>\<^verbatim>\<open>x = await m; f(x)\<close>: an exception of \<open>m\<close> skips \<open>f\<close>.\<close>

definition bind :: "'a io \<Rightarrow> ('a \<Rightarrow> 'b io) \<Rightarrow> 'b io" where
  "bind m f w = (case m w of (Inl e, w1) \<Rightarrow> (Inl e, w1) | (Inr x, w1) \<Rightarrow> f x w1)"

text \<open>
  \<^verbatim>\<open>try: m except ...: h\<close>. The handler gets every exception and re-raises those no
  clause matches; what a handler raises is not caught by its sibling clauses.
\<close>

definition try_except :: "'a io \<Rightarrow> (exn \<Rightarrow> 'a io) \<Rightarrow> 'a io" where
  "try_except m h w = (case m w of (Inl e, w1) \<Rightarrow> h e w1 | (Inr x, w1) \<Rightarrow> (Inr x, w1))"

text \<open>
  One awaited operation that takes \<open>d\<close> microseconds and then answers \<open>r\<close>. When the
  deadline does not fall after the answer, the coroutine is cancelled at the deadline:
  an answer due at the very instant of the deadline loses to the timeout, which
  \<^verbatim>\<open>wait_for\<close> scheduled first.
\<close>

definition past_deadline :: "world \<Rightarrow> nat \<Rightarrow> bool" where
  "past_deadline w d = (case deadline w of None \<Rightarrow> False | Some t \<Rightarrow> t \<le> clock w + int d)"

definition remote :: "request \<Rightarrow> nat \<times> (lib_error + 'a) \<Rightarrow> 'a io" where
  "remote rq reply w =
     (if past_deadline w (fst reply)
      then (Inl CancelledError,
            w\<lparr>clock := max (clock w) (the (deadline w)), trace := trace w @ [Ev rq Cancelled]\<rparr>)
      else (case snd reply of
              Inl e \<Rightarrow> (Inl (Library e),
                        w\<lparr>clock := clock w + int (fst reply),
                          trace := trace w @ [Ev rq (Failed e)]\<rparr>)
            | Inr x \<Rightarrow> (Inr x,
                        w\<lparr>clock := clock w + int (fst reply),
                          trace := trace w @ [Ev rq Ok]\<rparr>)))"

definition get_entity :: "TelegramClient \<Rightarrow> string \<Rightarrow> entity option io" where
  "get_entity client url w =
     remote (GetEntity url) (get_entity_reply client (lookups w) url)
       (w\<lparr>lookups := Suc (lookups w)\<rparr>)"

definition import_chat_invite :: "TelegramClient \<Rightarrow> string \<Rightarrow> unit io" where
  "import_chat_invite client invite_hash =
     remote (ImportChatInviteRequest invite_hash) (import_chat_invite_reply client invite_hash)"

definition get_full_channel :: "TelegramClient \<Rightarrow> entity \<Rightarrow> full_chat io" where
  "get_full_channel client ent =
     remote (GetFullChannelRequest ent) (get_full_channel_reply client ent)"

definition download_profile_photo :: "TelegramClient \<Rightarrow> entity \<Rightarrow> bytes option io" where
  "download_profile_photo client ent =
     remote (DownloadProfilePhoto ent) (download_profile_photo_reply client ent)"

text \<open>\<^verbatim>\<open>asyncio.sleep(seconds)\<close>.\<close>

definition sleep :: "nat \<Rightarrow> unit io" where
  "sleep seconds = remote (Sleep seconds) (seconds * 1000000, Inr ())"

subsection \<open>join_private_channel\<close>

text \<open>\<^verbatim>\<open>url.split('/')[-1]\<close>: what follows the last \<^verbatim>\<open>/\<close>, the whole string when there is none.\<close>

definition last_segment :: "string \<Rightarrow> string" where
  "last_segment url = rev (takeWhile (\<lambda>c. c \<noteq> CHR ''/'') (rev url))"

definition invite_hash_of :: "string \<Rightarrow> string" where
  "invite_hash_of url =
     (let invite_hash = last_segment url
      in if startswith invite_hash ''+'' then drop 1 invite_hash else invite_hash)"

text \<open>
  The loop \<^verbatim>\<open>for _ in range(n)\<close> of the \<^verbatim>\<open>InviteRequestSentError\<close> clause. \<open>Some r\<close> is
  the \<^verbatim>\<open>return\<close> inside the loop; \<open>None\<close> says the loop ran out and control falls to
  the statement after the \<^verbatim>\<open>try\<close>.
\<close>

fun retry_loop :: "nat \<Rightarrow> TelegramClient \<Rightarrow> string \<Rightarrow> entity option option io" where
  "retry_loop 0 client url = return None"
| "retry_loop (Suc n) client url =
     bind (sleep 10) (\<lambda>_.
       try_except (bind (get_entity client url) (\<lambda>r. return (Some r)))
         (\<lambda>e. case e of
                 Library (ValueError m) \<Rightarrow> retry_loop n client url
               | _ \<Rightarrow> raise e))"

definition join_private_channel :: "TelegramClient \<Rightarrow> string \<Rightarrow> entity option io" where
  "join_private_channel client url =
     bind
       (try_except
          (bind (import_chat_invite client (invite_hash_of url)) (\<lambda>_. return None))
          (\<lambda>e. case e of
                  Library (UserAlreadyParticipantError m) \<Rightarrow>
                    bind (get_entity client url) (\<lambda>r. return (Some r))
                | Library (InviteRequestSentError m) \<Rightarrow> retry_loop 3 client url
                | _ \<Rightarrow> raise e))
       (\<lambda>returned. case returned of
                      Some r \<Rightarrow> return r
                    | None \<Rightarrow> get_entity client url)"

subsection \<open>get_channel_entity\<close>

text \<open>
  \<^verbatim>\<open>get_entity\<close> raises library exceptions or is cancelled, so the last clause of
  the outer \<^verbatim>\<open>try\<close>, \<^verbatim>\<open>except Exception\<close>, is the case of the remaining library
  exceptions. A falsy result is \<open>None\<close>.
\<close>

definition get_channel_entity :: "TelegramClient \<Rightarrow> string \<Rightarrow> entity io" where
  "get_channel_entity client channel_link =
     bind
       (try_except (get_entity client channel_link)
          (\<lambda>e. case e of
                  Library (ValueError m) \<Rightarrow>
                    try_except (join_private_channel client channel_link)
                      (\<lambda>e'. case e' of
                               Library (InviteHashExpiredError m') \<Rightarrow>
                                 raise (InvalidChannelLink channel_link
                                          (str (InviteHashExpiredError m')))
                             | Library (FloodWaitError seconds m') \<Rightarrow> raise (FloodWait seconds)
                             | Library (UserDeactivatedBanError m') \<Rightarrow>
                                 raise (UserBan (str (UserDeactivatedBanError m')))
                             | _ \<Rightarrow> raise e')
                | Library (FloodWaitError seconds m) \<Rightarrow> raise (FloodWait seconds)
                | Library le \<Rightarrow> raise (InvalidChannelLink channel_link (str le))
                | _ \<Rightarrow> raise e))
       (\<lambda>channel_entity. case channel_entity of
                            None \<Rightarrow> raise (CannotGetChannelInfo channel_link)
                          | Some ent \<Rightarrow> return ent)"

subsection \<open>The scan of the last 24 hours\<close>

text \<open>
  \<^verbatim>\<open>datetime.timestamp()\<close>: the wall-clock reading less the offset of the zone; a
  naive date is read in the local zone of the process. Line 86 gives a naive date the
  zone UTC before the timestamp is taken. (The source compares the two timestamps as
  floats; the model compares the microsecond counts they stand for.)
\<close>

definition replace_tzinfo_UTC :: "datetime \<Rightarrow> datetime" where
  "replace_tzinfo_UTC d = d\<lparr>tzinfo := Some 0\<rparr>"

definition timestamp :: "int \<Rightarrow> datetime \<Rightarrow> int" where
  "timestamp zone d = wall d - (case tzinfo d of None \<Rightarrow> zone | Some off \<Rightarrow> off)"

definition post_date :: "post \<Rightarrow> datetime" where
  "post_date p = (if tzinfo (date p) = None then replace_tzinfo_UTC (date p) else date p)"

text \<open>\<^verbatim>\<open>timedelta(hours=h)\<close> in microseconds, and a date less a \<^verbatim>\<open>timedelta\<close>.\<close>

definition hours :: "int \<Rightarrow> int" where
  "hours h = h * 3600000000"

definition minus_timedelta :: "datetime \<Rightarrow> int \<Rightarrow> datetime" where
  "minus_timedelta d delta = d\<lparr>wall := wall d - delta\<rparr>"

text \<open>\<^verbatim>\<open>datetime.now(UTC)\<close>: the clock reading as an aware date in UTC.\<close>

definition now_UTC :: "world \<Rightarrow> datetime" where
  "now_UTC w = \<lparr>wall = clock w, tzinfo = Some 0\<rparr>"

text \<open>
  The body of \<^verbatim>\<open>async for post in client.iter_messages(...)\<close>, over what is left
  of the stream, with the two counters as they stand.
\<close>

fun scan_posts ::
  "int \<Rightarrow> datetime \<Rightarrow> (nat \<times> (lib_error + post)) list \<Rightarrow> int \<Rightarrow> int \<Rightarrow> (int \<times> int) io"
  where
  "scan_posts zone end_date [] vs n = return (vs, n)"
| "scan_posts zone end_date (item # rest) vs n =
     bind (remote NextMessage item) (\<lambda>p.
       if timestamp zone (post_date p) < timestamp zone end_date then return (vs, n)
       else scan_posts zone end_date rest
              (case post_views p of Some v \<Rightarrow> v | None \<Rightarrow> vs) (n + 1))"

text \<open>
  \<^verbatim>\<open>iter_messages\<close> is asked for the posts before \<^verbatim>\<open>start_date\<close>; the platform gets the
  instant that date stands for.
\<close>

definition get_posts :: "TelegramClient \<Rightarrow> entity \<Rightarrow> (int \<times> int) io" where
  "get_posts client ent w =
     (let start_date = now_UTC w;
          end_date = minus_timedelta start_date (hours 24)
      in scan_posts (local_zone w) end_date
           (iter_messages_reply client ent (timestamp (local_zone w) start_date)) 0 0 w)"

subsection \<open>get_channel\<close>

text \<open>\<^verbatim>\<open>Parser.get_channel\<close>.\<close>

definition Parser_get_channel :: "TelegramClient \<Rightarrow> entity \<Rightarrow> string \<Rightarrow> ChannelInfo io" where
  "Parser_get_channel client ent url =
     bind (get_full_channel client ent) (\<lambda>channel_info.
       bind (get_posts client ent) (\<lambda>(vs, n).
         return \<lparr>channel_id = full_chat_id channel_info,
                 link = strip_scheme url,
                 name = title ent,
                 description = about channel_info,
                 subscribers = participants_count channel_info,
                 views = vs,
                 posts_count = n\<rparr>))"

subsection \<open>get_channel_info\<close>

record GetChannelInfoRequest =
  channel_link :: string
  get_logo :: bool

record GetChannelInfoResponse =
  channel :: ChannelInfo
  logo :: "bytes option"

text \<open>\<^verbatim>\<open>except Exception: logo = None\<close> catches everything but a cancellation.\<close>

definition get_channel_info_internal ::
  "TelegramClient \<Rightarrow> GetChannelInfoRequest \<Rightarrow> GetChannelInfoResponse io" where
  "get_channel_info_internal client request =
     bind (get_channel_entity client (channel_link request)) (\<lambda>ent.
       bind
         (if get_logo request
          then try_except (download_profile_photo client ent)
                 (\<lambda>e. case e of CancelledError \<Rightarrow> raise e | _ \<Rightarrow> return None)
          else return None)
         (\<lambda>lg.
            bind (Parser_get_channel client ent (channel_link request)) (\<lambda>ch.
              return \<lparr>channel = ch, logo = lg\<rparr>)))"

text \<open>
  \<^verbatim>\<open>asyncio.wait_for(m, timeout)\<close>, \<open>timeout\<close> in seconds: \<open>m\<close> runs with the deadline
  set; when the deadline cancels it, \<^verbatim>\<open>asyncio.TimeoutError\<close> is raised in its place.
\<close>

definition wait_for :: "'a io \<Rightarrow> nat \<Rightarrow> 'a io" where
  "wait_for m timeout w =
     (case m (w\<lparr>deadline := Some (clock w + int timeout * 1000000)\<rparr>) of
        (Inl CancelledError, w1) \<Rightarrow>
          (Inl (Library (asyncio_TimeoutError [])), w1\<lparr>deadline := deadline w\<rparr>)
      | (r, w1) \<Rightarrow> (r, w1\<lparr>deadline := deadline w\<rparr>))"

text \<open>
  Modelled from the spec: the session pool of \<^verbatim>\<open>telegram.py\<close>, which is not among
  the sources. \<^verbatim>\<open>get_client()\<close> hands out a handle, \<^verbatim>\<open>async with\<close> on the handle
  holds it for the body and releases it on every exit, and \<^verbatim>\<open>mark_as_ban()\<close> flags the
  handle as compromised. None of them fails or takes time here.
\<close>

definition with_session :: "'a io \<Rightarrow> 'a io" where
  "with_session body w =
     (case body w of (r, w1) \<Rightarrow> (r, w1\<lparr>released := Suc (released w1)\<rparr>))"

definition mark_as_ban :: "unit io" where
  "mark_as_ban w = (Inr (), w\<lparr>marked := Suc (marked w)\<rparr>)"

definition get_channel_info ::
  "TelegramClient \<Rightarrow> GetChannelInfoRequest \<Rightarrow> GetChannelInfoResponse io" where
  "get_channel_info client request =
     with_session
       (try_except (wait_for (get_channel_info_internal client request) 60)
          (\<lambda>e. case e of
                  Library (asyncio_TimeoutError m) \<Rightarrow>
                    bind mark_as_ban (\<lambda>_.
                      raise (TimeoutError
                        ''Timeout while getting channel info. Client may be banned''))
                | _ \<Rightarrow> raise e))"

section \<open>Vocabulary of the properties\<close>

text \<open>
  The instant a post is dated at, in microseconds of POSIX time: its wall-clock
  reading less the offset of its zone, a date with no zone being read as UTC.
\<close>

definition utc_instant :: "post \<Rightarrow> int" where
  "utc_instant p =
     (case tzinfo (date p) of None \<Rightarrow> wall (date p) | Some off \<Rightarrow> wall (date p) - off)"

text \<open>The stream lists its posts newest first (the instants never increase).\<close>

definition newest_first :: "post list \<Rightarrow> bool" where
  "newest_first ps = sorted_wrt (\<lambda>a b. utc_instant b \<le> utc_instant a) ps"

text \<open>
  The posts dated at or after \<open>now - 24h\<close>; 24 hours are 86400000000 microseconds.
\<close>

definition within_24h :: "int \<Rightarrow> post list \<Rightarrow> post list" where
  "within_24h now ps = filter (\<lambda>p. now - 86400000000 \<le> utc_instant p) ps"

text \<open>The view counts that are not \<^verbatim>\<open>None\<close>, in stream order.\<close>

definition recorded_views :: "post list \<Rightarrow> int list" where
  "recorded_views ps = List.map_filter post_views ps"

text \<open>A stream every item of which arrives: no item raises.\<close>

definition delivered :: "(nat \<times> post) list \<Rightarrow> (nat \<times> (lib_error + post)) list" where
  "delivered stream = map (\<lambda>(d, p). (d, Inr p)) stream"

text \<open>How an answer of the platform reaches the coroutine that awaited it.\<close>

definition answer :: "lib_error + 'a \<Rightarrow> exn + 'a" where
  "answer r = (case r of Inl e \<Rightarrow> Inl (Library e) | Inr x \<Rightarrow> Inr x)"

definition ended :: "lib_error + 'a \<Rightarrow> outcome" where
  "ended r = (case r of Inl e \<Rightarrow> Failed e | Inr x \<Rightarrow> Ok)"

text \<open>A lookup that reports "not found": \<^verbatim>\<open>get_entity\<close> raises \<^verbatim>\<open>ValueError\<close>.\<close>

definition not_found :: "lib_error + 'a \<Rightarrow> bool" where
  "not_found r = (case r of Inl (ValueError m) \<Rightarrow> True | _ \<Rightarrow> False)"

text \<open>The events a run added to the trace.\<close>

definition new_events :: "world \<Rightarrow> world \<Rightarrow> event list" where
  "new_events w w' = drop (length (trace w)) (trace w')"

definition is_download :: "event \<Rightarrow> bool" where
  "is_download ev = (case ev of Ev (DownloadProfilePhoto e) oc \<Rightarrow> True | _ \<Rightarrow> False)"

definition is_lookup :: "event \<Rightarrow> bool" where
  "is_lookup ev = (case ev of Ev (GetEntity u) oc \<Rightarrow> True | _ \<Rightarrow> False)"

text \<open>The event of an operation that the platform answered with a rate limit.\<close>

definition rate_limit :: "request \<Rightarrow> int \<Rightarrow> string \<Rightarrow> event" where
  "rate_limit rq s msg = Ev rq (Failed (FloodWaitError s msg))"

text \<open>
  The answer to the \<open>k\<close>-th lookup made from the world \<open>w\<close> on, a join request that
  the platform queues for approval, and the event of a lookup with its answer.
\<close>

definition lookup_reply ::
  "TelegramClient \<Rightarrow> string \<Rightarrow> world \<Rightarrow> nat \<Rightarrow> lib_error + entity option" where
  "lookup_reply client url w k = snd (get_entity_reply client (lookups w + k) url)"

definition queued :: "TelegramClient \<Rightarrow> string \<Rightarrow> string \<Rightarrow> bool" where
  "queued client url msg =
     (snd (import_chat_invite_reply client (invite_hash_of url))
        = Inl (InviteRequestSentError msg))"

definition looked_up :: "string \<Rightarrow> lib_error + entity option \<Rightarrow> event" where
  "looked_up url r = Ev (GetEntity url) (ended r)"

section \<open>Invariants of coroutines\<close>

text \<open>
  A coroutine is steady when it leaves the deadline, the marks and the releases as they
  are and never turns the clock back.
\<close>

definition steady :: "'a io \<Rightarrow> bool" where
  "steady m = (\<forall>w r w'. m w = (r, w') \<longrightarrow>
      deadline w' = deadline w \<and> clock w \<le> clock w' \<and> marked w' = marked w \<and>
      released w' = released w)"

text \<open>
  A deadline at \<open>t\<close> cuts a coroutine: the run under the deadline is the run without
  it when that one ends before \<open>t\<close>, and is cancelled otherwise.
\<close>

definition cut_at :: "int \<Rightarrow> 'a io \<Rightarrow> bool" where
  "cut_at t m = (\<forall>w r w' rd wd.
      deadline w = None \<longrightarrow> clock w < t \<longrightarrow> m w = (r, w') \<longrightarrow>
      m (w\<lparr>deadline := Some t\<rparr>) = (rd, wd) \<longrightarrow>
      (if clock w' < t then rd = r \<and> wd = w'\<lparr>deadline := Some t\<rparr>
       else rd = Inl CancelledError))"

definition timed :: "int \<Rightarrow> 'a io \<Rightarrow> bool" where
  "timed t m = (steady m \<and> cut_at t m)"

text \<open>
  A rate limit stops a coroutine: an operation answered with a rate limit is the last
  event of the run, and the run raises \<open>T\<close> of the seconds and the message.
\<close>

definition flood_stops :: "(int \<Rightarrow> string \<Rightarrow> exn) \<Rightarrow> 'a io \<Rightarrow> bool" where
  "flood_stops T m = (\<forall>w r w'. m w = (r, w') \<longrightarrow>
      (\<exists>new. trace w' = trace w @ new \<and>
         (\<forall>i rq s msg. i < length new \<longrightarrow> new ! i = rate_limit rq s msg \<longrightarrow>
            r = Inl (T s msg) \<and> Suc i = length new)))"

abbreviation raw :: "int \<Rightarrow> string \<Rightarrow> exn" where
  "raw \<equiv> \<lambda>s msg. Library (FloodWaitError s msg)"

text \<open>Every event a coroutine adds to the trace satisfies \<open>P\<close>.\<close>

definition emits :: "(event \<Rightarrow> bool) \<Rightarrow> 'a io \<Rightarrow> bool" where
  "emits P m = (\<forall>w r w'. m w = (r, w') \<longrightarrow>
      (\<exists>new. trace w' = trace w @ new \<and> list_all P new))"

abbreviation no_download :: "event \<Rightarrow> bool" where
  "no_download \<equiv> \<lambda>ev. \<not> is_download ev"

section \<open>Concrete scenarios\<close>

text \<open>
  A request that starts at 1700000000 seconds of POSIX time on a machine whose local zone
  is five hours behind UTC.
\<close>

definition w0 :: world where
  "w0 = \<lparr>clock = 1700000000000000, deadline = None, lookups = 0, trace = [],
         marked = 0, released = 0, local_zone = - 18000000000\<rparr>"

definition foo :: entity where
  "foo = \<lparr>entity_id = 7, title = ''Foo''\<rparr>"

definition foo_full :: full_chat where
  "foo_full = \<lparr>full_chat_id = 7, about = ''about foo'', participants_count = 5\<rparr>"

text \<open>A post dated \<open>t\<close> with no zone, with view count \<open>v\<close>.\<close>

definition naive_post :: "int \<Rightarrow> int option \<Rightarrow> post" where
  "naive_post t v = \<lparr>date = \<lparr>wall = t, tzinfo = None\<rparr>, post_views = v\<rparr>"

text \<open>
  The three posts of the spec's example, relative to \<open>now\<close>: 1 hour, 2 hours and 26
  hours old (3600000000, 7200000000 and 93600000000 microseconds).
\<close>

definition example_posts :: "int \<Rightarrow> (nat \<times> post) list" where
  "example_posts now =
     [(0, naive_post (now - 3600000000) (Some 10)),
      (0, naive_post (now - 7200000000) None),
      (0, naive_post (now - 93600000000) (Some 999))]"

text \<open>
  Two posts whose dates carry a zone. The first reads 26 hours ago on a clock three hours
  behind UTC, so it is 23 hours old; the second reads 22 hours ago on a clock three
  hours ahead of UTC, so it is 25 hours old.
\<close>

definition zoned_posts :: "int \<Rightarrow> (nat \<times> post) list" where
  "zoned_posts now =
     [(0, \<lparr>date = \<lparr>wall = now - 93600000000, tzinfo = Some (- 10800000000)\<rparr>,
           post_views = Some 7\<rparr>),
      (0, \<lparr>date = \<lparr>wall = now - 79200000000, tzinfo = Some 10800000000\<rparr>,
           post_views = Some 8\<rparr>)]"

text \<open>Two posts in the window, both with a view count.\<close>

definition two_viewed_posts :: "int \<Rightarrow> (nat \<times> post) list" where
  "two_viewed_posts now =
     [(0, naive_post (now - 3600000000) (Some 10)),
      (0, naive_post (now - 7200000000) (Some 20))]"

text \<open>
  A public channel: every lookup answers within a second, the profile fetch and the
  posts arrive, the image fetch fails.
\<close>

definition public_client :: TelegramClient where
  "public_client =
     \<lparr>get_entity_reply = (\<lambda>k u. (1000000, Inr (Some foo))),
      import_chat_invite_reply = (\<lambda>h. (1000000, Inr ())),
      get_full_channel_reply = (\<lambda>e. (1000000, Inr foo_full)),
      iter_messages_reply = (\<lambda>e now. delivered (example_posts now)),
      download_profile_photo_reply = (\<lambda>e. (1000000, Inl (OtherError ''no photo'')))\<rparr>"

text \<open>The same channel when its two posts both carry a view count.\<close>

definition two_viewed_client :: TelegramClient where
  "two_viewed_client =
     public_client\<lparr>iter_messages_reply := (\<lambda>e now. delivered (two_viewed_posts now))\<rparr>"

text \<open>The same channel when its posts are the two dated with a zone.\<close>

definition zoned_client :: TelegramClient where
  "zoned_client =
     public_client\<lparr>iter_messages_reply := (\<lambda>e now. delivered (zoned_posts now))\<rparr>"

text \<open>The platform answers the profile fetch with a rate limit of 30 seconds.\<close>

definition flooded_client :: TelegramClient where
  "flooded_client =
     public_client\<lparr>get_full_channel_reply :=
                     (\<lambda>e. (1000000, Inl (FloodWaitError 30 ''A wait of 30 seconds is required'')))\<rparr>"

text \<open>The profile fetch stalls for 61 seconds.\<close>

definition stalled_client :: TelegramClient where
  "stalled_client =
     public_client\<lparr>get_full_channel_reply := (\<lambda>e. (61000000, Inr foo_full))\<rparr>"

text \<open>
  A private channel whose join request is queued; \<open>found_at\<close> is the number of the first
  lookup that finds the channel (lookup 0 is the direct one).
\<close>

definition queued_client :: "nat \<Rightarrow> TelegramClient" where
  "queued_client found_at =
     public_client
       \<lparr>get_entity_reply :=
          (\<lambda>k u. (1000000, if k < found_at then Inl (ValueError ''not found'') else Inr (Some foo))),
        import_chat_invite_reply := (\<lambda>h. (1000000, Inl (InviteRequestSentError ''sent'')))\<rparr>"

text \<open>The direct lookup is answered with a rate limit of 17 seconds.\<close>

definition rate_limited_client :: TelegramClient where
  "rate_limited_client =
     public_client\<lparr>get_entity_reply := (\<lambda>k u. (1000000, Inl (FloodWaitError 17 ''wait'')))\<rparr>"

text \<open>A private channel whose join request is answered with a rate limit of 42 seconds.\<close>

definition join_rate_limited_client :: TelegramClient where
  "join_rate_limited_client =
     (queued_client 9)\<lparr>import_chat_invite_reply :=
                          (\<lambda>h. (1000000, Inl (FloodWaitError 42 ''wait'')))\<rparr>"

definition foo_request :: "bool \<Rightarrow> GetChannelInfoRequest" where
  "foo_request want_logo = \<lparr>channel_link = ''https://t.me/foo'', get_logo = want_logo\<rparr>"

definition foo_row :: channel_row where
  "foo_row = \<lparr>row_id = 1, row_name = ''Foo'', row_description = ''about foo'',
              row_link = ''t.me/foo''\<rparr>"

text \<open>One channel, no statistics yet.\<close>

definition db1 :: database where
  "db1 = \<lparr>channels = [foo_row], statistics = []\<rparr>"

definition foo_info :: ChannelInfo where
  "foo_info = \<lparr>channel_id = 1, link = ''t.me/foo'', name = ''Foo'',
               description = ''about foo'', subscribers = 5, views = 10, posts_count = 2\<rparr>"

section \<open>Running the scenarios\<close>

lemmas run_defs =
  get_channel_info_def with_session_def try_except_def wait_for_def mark_as_ban_def
  get_channel_info_internal_def get_channel_entity_def join_private_channel_def
  get_entity_def import_chat_invite_def get_full_channel_def download_profile_photo_def
  sleep_def Parser_get_channel_def get_posts_def bind_def return_def raise_def remote_def
  past_deadline_def post_date_def replace_tzinfo_UTC_def timestamp_def hours_def minus_timedelta_def now_UTC_def
  strip_scheme_def startswith_def removeprefix_def invite_hash_of_def last_segment_def
  numeral_3_eq_3

lemmas scenario_defs =
  w0_def foo_def foo_full_def naive_post_def example_posts_def two_viewed_posts_def
  public_client_def two_viewed_client_def zoned_posts_def zoned_client_def flooded_client_def stalled_client_def
  queued_client_def rate_limited_client_def join_rate_limited_client_def foo_request_def
  delivered_def new_events_def

section \<open>Link normalisation\<close>

lemma strip_scheme_https: "strip_scheme (''https://'' @ s) = s"
  by (simp add: strip_scheme_def startswith_def removeprefix_def)

lemma strip_scheme_http: "strip_scheme (''http://'' @ s) = s"
  by (simp add: strip_scheme_def startswith_def removeprefix_def)

lemma Parser_get_channel_link:
  "Parser_get_channel client ent url w = (Inr info, w') \<Longrightarrow> link info = strip_scheme url"
  by (auto simp: Parser_get_channel_def bind_def return_def split: prod.splits sum.splits)

lemma first_None: "first rows = None \<longleftrightarrow> rows = []"
  by (simp add: first_def split: list.splits)

lemma first_SomeD: "first rows = Some r \<Longrightarrow> rows \<noteq> []"
  by (auto simp: first_def)

lemma get_channel_by_link_found:
  assumes "filter (\<lambda>r. row_link r = strip_scheme u) (channels db) = [ch]"
      and "first (stats_newest_first db ch) = Some st"
  shows "get_channel_by_link db u = Inr (channel_response ch st)"
  using assms by (simp add: get_channel_by_link_def orm_get_def)

text \<open>
  C7. Normalisation removes one leading \<^verbatim>\<open>https://\<close> or \<^verbatim>\<open>http://\<close> and nothing more, and
  leaves any other reference as it is; the three references of the example all give
  \<^verbatim>\<open>t.me/foo\<close>. The profile the parser builds carries the normalised reference as its
  link, and the database lookup by link compares the stored links with the normalised
  reference, so both schemes of one reference find the same row.
\<close>

theorem link_normalization:
  "strip_scheme (''https://'' @ s) = s \<and>
   strip_scheme (''http://'' @ s) = s \<and>
   (\<not> startswith u ''https://'' \<and> \<not> startswith u ''http://'' \<longrightarrow> strip_scheme u = u) \<and>
   strip_scheme ''https://t.me/foo'' = ''t.me/foo'' \<and>
   strip_scheme ''http://t.me/foo'' = ''t.me/foo'' \<and>
   strip_scheme ''t.me/foo'' = ''t.me/foo'' \<and>
   (Parser_get_channel client ent url w = (Inr info, w') \<longrightarrow> link info = strip_scheme url) \<and>
   (filter (\<lambda>r. row_link r = strip_scheme url) (channels db) = [ch] \<and>
    first (stats_newest_first db ch) = Some st \<longrightarrow>
      get_channel_by_link db url = Inr (channel_response ch st)) \<and>
   get_channel_by_link db (''https://'' @ s) = get_channel_by_link db (''http://'' @ s)"
proof -
  have other: "\<not> startswith u ''https://'' \<and> \<not> startswith u ''http://'' \<longrightarrow> strip_scheme u = u"
    by (simp add: strip_scheme_def)
  have three: "strip_scheme ''https://t.me/foo'' = ''t.me/foo''"
    "strip_scheme ''http://t.me/foo'' = ''t.me/foo''"
    "strip_scheme ''t.me/foo'' = ''t.me/foo''"
    by (simp_all add: strip_scheme_def startswith_def removeprefix_def)
  have same: "get_channel_by_link db (''https://'' @ s) = get_channel_by_link db (''http://'' @ s)"
    unfolding get_channel_by_link_def strip_scheme_https strip_scheme_http ..
  show ?thesis
    using other three same strip_scheme_https [of s] strip_scheme_http [of s]
      Parser_get_channel_link [of client ent url w info w']
      get_channel_by_link_found [of url db ch st]
    by blast
qed

theorem link_normalization_witness:
  "strip_scheme ''t.me/foo'' = ''t.me/foo'' \<and>
   link (channel (projr (fst (get_channel_info public_client (foo_request False) w0))))
     = ''t.me/foo'' \<and>
   link (projr (fst (Parser_get_channel public_client foo ''https://t.me/foo'' w0)))
     = strip_scheme ''https://t.me/foo'' \<and>
   get_channel_by_link db1 ''https://t.me/foo'' = get_channel_by_link db1 ''http://t.me/foo''"
proof -
  have run: "Parser_get_channel public_client foo ''https://t.me/foo'' w0 =
      (Inr (projr (fst (Parser_get_channel public_client foo ''https://t.me/foo'' w0))),
       snd (Parser_get_channel public_client foo ''https://t.me/foo'' w0))"
    by (simp add: run_defs scenario_defs)
  have whole: "link (channel (projr (fst (get_channel_info public_client (foo_request False) w0))))
     = ''t.me/foo''"
    by (simp add: run_defs scenario_defs)
  have plain: "\<not> startswith ''t.me/foo'' ''https://'' \<and> \<not> startswith ''t.me/foo'' ''http://''"
    by (simp add: startswith_def)
  show ?thesis
    using link_normalization [of "''t.me/foo''" "''t.me/foo''" public_client foo
        "''https://t.me/foo''" w0
        "projr (fst (Parser_get_channel public_client foo ''https://t.me/foo'' w0))"
        "snd (Parser_get_channel public_client foo ''https://t.me/foo'' w0)" db1]
      run whole plain
    by simp
qed

section \<open>The two errors of the lookups\<close>

lemma stats_newest_first_Nil:
  "stats_newest_first db ch = [] \<longleftrightarrow>
     (\<forall>s \<in> set (statistics db). stat_channel s \<noteq> row_id ch)"
proof -
  have "stats_newest_first db ch = [] \<longleftrightarrow>
        filter (\<lambda>s. stat_channel s = row_id ch) (statistics db) = []"
    unfolding stats_newest_first_def by (metis length_sort length_0_conv)
  then show ?thesis by (simp add: filter_empty_conv)
qed

lemma Database_get_channel_missing_iff:
  "Database_get_channel db i = Inl (ChannelDoesNotExistError k) \<longleftrightarrow>
     k = ById i \<and> (\<forall>r \<in> set (channels db). row_id r \<noteq> i)"
proof (cases "filter (\<lambda>r. row_id r = i) (channels db)")
  case Nil
  then show ?thesis
    by (auto simp: Database_get_channel_def orm_get_def filter_empty_conv)
next
  case (Cons a rest)
  then have "a \<in> set (filter (\<lambda>r. row_id r = i) (channels db))" by simp
  then have "\<exists>r \<in> set (channels db). row_id r = i" by auto
  then show ?thesis using Cons
    by (cases rest) (auto simp: Database_get_channel_def orm_get_def split: option.splits)
qed

lemma Database_get_channel_no_stats_iff:
  "Database_get_channel db i = Inl (StatsDoesNotExistError k) \<longleftrightarrow>
     k = ById i \<and> (\<exists>ch. filter (\<lambda>r. row_id r = i) (channels db) = [ch]) \<and>
     (\<forall>s \<in> set (statistics db). stat_channel s \<noteq> i)"
proof (cases "filter (\<lambda>r. row_id r = i) (channels db)")
  case Nil
  then show ?thesis
    by (auto simp: Database_get_channel_def orm_get_def)
next
  case (Cons a rest)
  then have "a \<in> set (filter (\<lambda>r. row_id r = i) (channels db))" by simp
  then have "row_id a = i" by simp
  then show ?thesis using Cons
    by (cases rest)
      (auto simp: Database_get_channel_def orm_get_def first_None stats_newest_first_Nil
        split: option.splits dest!: first_SomeD)
qed

lemma get_channel_by_link_missing_iff:
  "get_channel_by_link db l = Inl (ChannelDoesNotExistError k) \<longleftrightarrow>
     k = ByLink (strip_scheme l) \<and>
     (\<forall>r \<in> set (channels db). row_link r \<noteq> strip_scheme l)"
proof (cases "filter (\<lambda>r. row_link r = strip_scheme l) (channels db)")
  case Nil
  then show ?thesis
    by (auto simp: get_channel_by_link_def orm_get_def filter_empty_conv)
next
  case (Cons a rest)
  then have "a \<in> set (filter (\<lambda>r. row_link r = strip_scheme l) (channels db))" by simp
  then have "\<exists>r \<in> set (channels db). row_link r = strip_scheme l" by auto
  then show ?thesis using Cons
    by (cases rest) (auto simp: get_channel_by_link_def orm_get_def split: option.splits)
qed

lemma get_channel_by_link_no_stats_iff:
  "get_channel_by_link db l = Inl (StatsDoesNotExistError k) \<longleftrightarrow>
     k = ByLink (strip_scheme l) \<and>
     (\<exists>ch. filter (\<lambda>r. row_link r = strip_scheme l) (channels db) = [ch] \<and>
           (\<forall>s \<in> set (statistics db). stat_channel s \<noteq> row_id ch))"
proof (cases "filter (\<lambda>r. row_link r = strip_scheme l) (channels db)")
  case Nil
  then show ?thesis
    by (auto simp: get_channel_by_link_def orm_get_def)
next
  case (Cons a rest)
  then show ?thesis
    by (cases rest)
      (auto simp: get_channel_by_link_def orm_get_def first_None stats_newest_first_Nil
        split: option.splits dest!: first_SomeD)
qed

text \<open>
  C9. \<^verbatim>\<open>get_channel\<close> raises \<^verbatim>\<open>ChannelDoesNotExistError\<close> exactly when no channel has the
  requested id, and \<^verbatim>\<open>StatsDoesNotExistError\<close> exactly when one channel has it and no
  statistics row belongs to it; \<^verbatim>\<open>get_channel_by_link\<close> does the same for the normalised
  link. The two errors differ from each other and from every successful response.
\<close>

theorem lookup_errors_distinguished:
  "(Database_get_channel db i = Inl (ChannelDoesNotExistError k) \<longleftrightarrow>
      k = ById i \<and> (\<forall>r \<in> set (channels db). row_id r \<noteq> i)) \<and>
   (Database_get_channel db i = Inl (StatsDoesNotExistError k) \<longleftrightarrow>
      k = ById i \<and> (\<exists>ch. filter (\<lambda>r. row_id r = i) (channels db) = [ch]) \<and>
      (\<forall>s \<in> set (statistics db). stat_channel s \<noteq> i)) \<and>
   (get_channel_by_link db l = Inl (ChannelDoesNotExistError k') \<longleftrightarrow>
      k' = ByLink (strip_scheme l) \<and>
      (\<forall>r \<in> set (channels db). row_link r \<noteq> strip_scheme l)) \<and>
   (get_channel_by_link db l = Inl (StatsDoesNotExistError k') \<longleftrightarrow>
      k' = ByLink (strip_scheme l) \<and>
      (\<exists>ch. filter (\<lambda>r. row_link r = strip_scheme l) (channels db) = [ch] \<and>
            (\<forall>s \<in> set (statistics db). stat_channel s \<noteq> row_id ch))) \<and>
   ChannelDoesNotExistError a \<noteq> StatsDoesNotExistError b \<and>
   (Inl (ChannelDoesNotExistError a) :: db_error + GetChannelResponse) \<noteq> Inr resp \<and>
   (Inl (StatsDoesNotExistError b) :: db_error + GetChannelResponse) \<noteq> Inr resp"
  using Database_get_channel_missing_iff [of db i k]
    Database_get_channel_no_stats_iff [of db i k]
    get_channel_by_link_missing_iff [of db l k']
    get_channel_by_link_no_stats_iff [of db l k']
  by simp

theorem lookup_errors_distinguished_witness:
  "Database_get_channel db1 2 = Inl (ChannelDoesNotExistError (ById 2)) \<and>
   Database_get_channel db1 1 = Inl (StatsDoesNotExistError (ById 1)) \<and>
   get_channel_by_link db1 ''https://t.me/bar''
     = Inl (ChannelDoesNotExistError (ByLink ''t.me/bar'')) \<and>
   get_channel_by_link db1 ''https://t.me/foo''
     = Inl (StatsDoesNotExistError (ByLink ''t.me/foo''))"
  using lookup_errors_distinguished
      [of db1 2 "ById 2" "''https://t.me/bar''" "ByLink ''t.me/bar''"]
    lookup_errors_distinguished
      [of db1 1 "ById 1" "''https://t.me/foo''" "ByLink ''t.me/foo''"]
  by (simp add: db1_def foo_row_def strip_scheme_def startswith_def removeprefix_def)

section \<open>Every update records statistics\<close>

lemma filter_map_set_defaults:
  "filter (\<lambda>r. row_id r = i)
     (map (\<lambda>r'. if row_id r' = i then set_defaults c r' else r') rows)
   = map (set_defaults c) (filter (\<lambda>r. row_id r = i) rows)"
  by (induction rows) (auto simp: set_defaults_def)

lemma update_or_create_channel_Inr:
  assumes "update_or_create_channel now c db = (Inr created, db')"
  shows "statistics db' = statistics db @
           [\<lparr>stat_channel = channel_id c, stat_subscribers = subscribers c,
             stat_views_24h = views c, stat_posts_count = posts_count c,
             stat_recorded_at = now\<rparr>] \<and>
       (created \<longleftrightarrow> (\<forall>r \<in> set (channels db). row_id r \<noteq> channel_id c)) \<and>
       (\<exists>ch. filter (\<lambda>r. row_id r = channel_id c) (channels db') = [ch])"
proof (cases "filter (\<lambda>r. row_id r = channel_id c) (channels db)")
  case Nil
  then show ?thesis
    using assms
    by (auto simp: update_or_create_channel_def Channel_update_or_create_def
        ChannelStatistics_create_def orm_get_def filter_empty_conv Let_def)
next
  case (Cons r rest)
  then have "r \<in> set (filter (\<lambda>r. row_id r = channel_id c) (channels db))" by simp
  then have r: "row_id r = channel_id c" "r \<in> set (channels db)" by simp_all
  have "row_id (set_defaults c r) = channel_id c" using r by (simp add: set_defaults_def)
  then show ?thesis
    using assms Cons r
    by (cases rest)
      (auto simp: update_or_create_channel_def Channel_update_or_create_def
        ChannelStatistics_create_def orm_get_def filter_map_set_defaults)
qed

text \<open>
  C10. A successful \<^verbatim>\<open>update_or_create_channel\<close> appends exactly one statistics row for the
  channel, whether the channel row was created or only updated (\<open>created\<close> is true exactly
  when no row had the id before). Afterwards \<^verbatim>\<open>get_channel\<close> for that id succeeds; in
  particular it does not raise \<^verbatim>\<open>StatsDoesNotExistError\<close>.
\<close>

theorem update_or_create_channel_records_statistics:
  assumes "update_or_create_channel now c db = (Inr created, db')"
  shows "statistics db' = statistics db @
           [\<lparr>stat_channel = channel_id c, stat_subscribers = subscribers c,
             stat_views_24h = views c, stat_posts_count = posts_count c,
             stat_recorded_at = now\<rparr>] \<and>
         (created \<longleftrightarrow> (\<forall>r \<in> set (channels db). row_id r \<noteq> channel_id c)) \<and>
         (\<exists>resp. Database_get_channel db' (channel_id c) = Inr resp) \<and>
         (\<forall>k. Database_get_channel db' (channel_id c) \<noteq> Inl (StatsDoesNotExistError k))"
proof -
  note facts = update_or_create_channel_Inr [OF assms]
  from facts obtain ch where ch: "filter (\<lambda>r. row_id r = channel_id c) (channels db') = [ch]"
    by blast
  then have "ch \<in> set (filter (\<lambda>r. row_id r = channel_id c) (channels db'))" by simp
  then have id: "row_id ch = channel_id c" by simp
  have "\<exists>s \<in> set (statistics db'). stat_channel s = row_id ch"
    using facts id by simp
  then have "stats_newest_first db' ch \<noteq> []" by (simp add: stats_newest_first_Nil)
  then obtain st where "first (stats_newest_first db' ch) = Some st"
    by (cases "stats_newest_first db' ch") (simp_all add: first_def)
  then have "Database_get_channel db' (channel_id c) = Inr (channel_response ch st)"
    using ch by (simp add: Database_get_channel_def orm_get_def)
  then show ?thesis using facts by simp
qed

theorem update_or_create_channel_records_statistics_witness:
  "fst (update_or_create_channel 1700000000000000 foo_info db1) = Inr False \<and>
   length (statistics (snd (update_or_create_channel 1700000000000000 foo_info db1))) = 1 \<and>
   (\<exists>resp. Database_get_channel
             (snd (update_or_create_channel 1700000000000000 foo_info db1)) 1 = Inr resp) \<and>
   fst (update_or_create_channel 1700000000000000 (foo_info\<lparr>channel_id := 2\<rparr>) db1) = Inr True \<and>
   (\<exists>resp. Database_get_channel
             (snd (update_or_create_channel 1700000000000000 (foo_info\<lparr>channel_id := 2\<rparr>) db1)) 2
           = Inr resp)"
proof -
  have u: "update_or_create_channel 1700000000000000 foo_info db1 =
           (Inr False, snd (update_or_create_channel 1700000000000000 foo_info db1))"
    by (simp add: update_or_create_channel_def Channel_update_or_create_def orm_get_def
        db1_def foo_row_def foo_info_def)
  have v: "update_or_create_channel 1700000000000000 (foo_info\<lparr>channel_id := 2\<rparr>) db1 =
           (Inr True,
            snd (update_or_create_channel 1700000000000000 (foo_info\<lparr>channel_id := 2\<rparr>) db1))"
    by (simp add: update_or_create_channel_def Channel_update_or_create_def orm_get_def
        db1_def foo_row_def foo_info_def Let_def)
  have c1: "channel_id foo_info = 1" "statistics db1 = []" by (simp_all add: foo_info_def db1_def)
  have f: "fst (update_or_create_channel 1700000000000000 foo_info db1) = Inr False"
    "fst (update_or_create_channel 1700000000000000 (foo_info\<lparr>channel_id := 2\<rparr>) db1) = Inr True"
    by (simp_all add: update_or_create_channel_def Channel_update_or_create_def orm_get_def
        db1_def foo_row_def foo_info_def Let_def)
  show ?thesis
    using update_or_create_channel_records_statistics [OF u]
      update_or_create_channel_records_statistics [OF v] f c1
    by simp
qed

section \<open>The scan of the last 24 hours\<close>

lemma remote_no_deadline:
  "deadline w = None \<Longrightarrow>
   remote rq (d, Inr x) w =
     (Inr x, w\<lparr>clock := clock w + int d, trace := trace w @ [Ev rq Ok]\<rparr>)"
  by (simp add: remote_def past_deadline_def)

lemma recorded_views_Cons:
  "recorded_views (p # ps) =
     (case post_views p of None \<Rightarrow> recorded_views ps | Some v \<Rightarrow> v # recorded_views ps)"
  by (simp add: recorded_views_def map_filter_simps split: option.splits)

text \<open>
  What the program computes for a post is the instant the post is dated at, whatever the
  local zone: line 86 makes every date aware before its timestamp is taken. The end of
  the window is 24 hours before the clock reading.
\<close>

lemma timestamp_post_date: "timestamp zone (post_date p) = utc_instant p"
  by (simp add: post_date_def replace_tzinfo_UTC_def timestamp_def utc_instant_def
      split: option.splits)

lemma timestamp_now_UTC: "timestamp zone (now_UTC w) = clock w"
  by (simp add: timestamp_def now_UTC_def)

lemma timestamp_end_date:
  "timestamp zone (minus_timedelta (now_UTC w) (hours 24)) = clock w - 86400000000"
  by (simp add: timestamp_def now_UTC_def minus_timedelta_def hours_def)

text \<open>
  The loop on a stream that arrives whole: it pulls the posts up to and including the
  first one older than the end date, counts those before it, and keeps the last view
  count seen.
\<close>

lemma scan_posts_delivered:
  "deadline w = None \<Longrightarrow>
   scan_posts zone end_date (delivered stream) vs n w =
     (let seen = takeWhile (\<lambda>p. timestamp zone end_date \<le> utc_instant p) (map snd stream);
          pulled = min (length stream) (Suc (length seen))
      in (Inr (if recorded_views seen = [] then vs else last (recorded_views seen),
               n + int (length seen)),
          w\<lparr>clock := clock w + int (sum_list (map fst (take pulled stream))),
            trace := trace w @ replicate pulled (Ev NextMessage Ok)\<rparr>))"
proof (induction stream arbitrary: vs n w)
  case Nil
  then show ?case by (simp add: delivered_def return_def recorded_views_def map_filter_simps)
next
  case (Cons item stream)
  obtain d p where item: "item = (d, p)" by (cases item)
  let ?w1 = "w\<lparr>clock := clock w + int d, trace := trace w @ [Ev NextMessage Ok]\<rparr>"
  have r: "remote NextMessage (d, Inr p) w = (Inr p, ?w1)"
    using Cons.prems by (rule remote_no_deadline)
  have d1: "deadline ?w1 = None" using Cons.prems by simp
  show ?case
  proof (cases "utc_instant p < timestamp zone end_date")
    case True
    then show ?thesis
      using r
      by (simp add: item delivered_def bind_def return_def recorded_views_def map_filter_simps
          timestamp_post_date)
  next
    case False
    have "scan_posts zone end_date (delivered (item # stream)) vs n w =
          scan_posts zone end_date (delivered stream)
            (case post_views p of Some v \<Rightarrow> v | None \<Rightarrow> vs) (n + 1) ?w1"
      using r False by (simp add: item delivered_def bind_def timestamp_post_date)
    then show ?thesis
      using False
        Cons.IH [OF d1, of "case post_views p of Some v \<Rightarrow> v | None \<Rightarrow> vs" "n + 1"]
      by (auto simp: item Let_def recorded_views_Cons replicate_append_same
          split: option.splits)
  qed
qed

text \<open>On a stream that lists newest first, the prefix scanned is the whole window.\<close>

lemma takeWhile_newest_first:
  "newest_first ps \<Longrightarrow>
   takeWhile (\<lambda>p. e \<le> utc_instant p) ps = filter (\<lambda>p. e \<le> utc_instant p) ps"
proof (induction ps)
  case Nil
  then show ?case by simp
next
  case (Cons p ps)
  then have tl: "newest_first ps"
    and le: "\<forall>q \<in> set ps. utc_instant q \<le> utc_instant p"
    by (simp_all add: newest_first_def)
  show ?case
  proof (cases "e \<le> utc_instant p")
    case True
    then show ?thesis using Cons.IH [OF tl] by simp
  next
    case False
    then have "\<forall>q \<in> set ps. \<not> e \<le> utc_instant q" using le by fastforce
    then have "filter (\<lambda>p. e \<le> utc_instant p) ps = []"
      by (simp add: filter_empty_conv)
    then show ?thesis using False by simp
  qed
qed

lemma get_posts_delivered:
  assumes "deadline w = None"
      and "iter_messages_reply client ent (clock w) = delivered stream"
      and "newest_first (map snd stream)"
  shows "fst (get_posts client ent w) =
           Inr (if recorded_views (within_24h (clock w) (map snd stream)) = [] then 0
                else last (recorded_views (within_24h (clock w) (map snd stream))),
                int (length (within_24h (clock w) (map snd stream))))"
    and "trace (snd (get_posts client ent w)) =
           trace w @ replicate (min (length stream)
                                  (Suc (length (within_24h (clock w) (map snd stream)))))
                       (Ev NextMessage Ok)"
  using assms(2) takeWhile_newest_first [OF assms(3), of "clock w - 86400000000"]
  by (simp_all add: get_posts_def Let_def scan_posts_delivered [OF assms(1)] within_24h_def
      timestamp_now_UTC timestamp_end_date)

lemma example_posts_facts:
  "newest_first (map snd (example_posts now))"
  "within_24h now (map snd (example_posts now))
     = [naive_post (now - 3600000000) (Some 10), naive_post (now - 7200000000) None]"
  by (simp_all add: example_posts_def newest_first_def within_24h_def naive_post_def
      utc_instant_def)

lemma two_viewed_posts_facts:
  "newest_first (map snd (two_viewed_posts now))"
  "within_24h now (map snd (two_viewed_posts now))
     = [naive_post (now - 3600000000) (Some 10), naive_post (now - 7200000000) (Some 20)]"
  by (simp_all add: two_viewed_posts_def newest_first_def within_24h_def naive_post_def
      utc_instant_def)

lemma zoned_posts_facts:
  "newest_first (map snd (zoned_posts now))"
  "within_24h now (map snd (zoned_posts now))
     = [\<lparr>date = \<lparr>wall = now - 93600000000, tzinfo = Some (- 10800000000)\<rparr>,
         post_views = Some 7\<rparr>]"
  by (simp_all add: zoned_posts_def newest_first_def within_24h_def utc_instant_def)

lemma recorded_views_examples:
  "recorded_views [naive_post t (Some 10), naive_post t' None] = [10]"
  "recorded_views [naive_post t (Some 10), naive_post t' (Some 20)] = [10, 20]"
  by (simp_all add: recorded_views_Cons naive_post_def recorded_views_def map_filter_simps)

text \<open>
  C1. On a stream that lists its posts newest first and arrives whole, the scan returns
  as post count the number of posts dated at or after \<open>now - 24h\<close> (86400000000
  microseconds before the clock reading), where a date with no zone is read as UTC
  whatever the local zone of the process; it pulls no post beyond the first one older
  than that; and it returns as views the last view count that is not \<^verbatim>\<open>None\<close> among the
  posts of the window, in stream order (0 when there is none). On the three posts of
  the example it returns 2 posts and 10 views.
\<close>

theorem get_posts_last_24h:
  assumes "deadline w = None"
      and "iter_messages_reply client ent (clock w) = delivered stream"
      and "newest_first (map snd stream)"
  shows "fst (get_posts client ent w) =
           Inr (if recorded_views (within_24h (clock w) (map snd stream)) = [] then 0
                else last (recorded_views (within_24h (clock w) (map snd stream))),
                int (length (within_24h (clock w) (map snd stream)))) \<and>
         new_events w (snd (get_posts client ent w)) =
           replicate (min (length stream)
                        (Suc (length (within_24h (clock w) (map snd stream)))))
             (Ev NextMessage Ok) \<and>
         (\<forall>p. tzinfo (date p) = None \<longrightarrow>
              timestamp (local_zone w) (post_date p) = wall (date p)) \<and>
         (stream = example_posts (clock w) \<longrightarrow> fst (get_posts client ent w) = Inr (10, 2))"
proof -
  note run = get_posts_delivered [OF assms]
  have zone: "\<forall>p. tzinfo (date p) = None \<longrightarrow>
                timestamp (local_zone w) (post_date p) = wall (date p)"
    by (simp add: timestamp_post_date utc_instant_def)
  have example: "fst (get_posts client ent w) = Inr (10, 2)" if "stream = example_posts (clock w)"
    using run(1) that by (simp add: example_posts_facts recorded_views_examples)
  show ?thesis
    using run zone example by (simp add: new_events_def)
qed

theorem get_posts_last_24h_witness:
  "fst (get_posts public_client foo w0) = Inr (10, 2) \<and>
   new_events w0 (snd (get_posts public_client foo w0)) =
     [Ev NextMessage Ok, Ev NextMessage Ok, Ev NextMessage Ok] \<and>
   timestamp (local_zone w0) (post_date (naive_post 1699996400000000 (Some 10)))
     = 1699996400000000 \<and>
   fst (get_posts zoned_client foo w0) = Inr (7, 1)"
proof -
  have d: "deadline w0 = None" by (simp add: w0_def)
  have s: "iter_messages_reply public_client foo (clock w0) = delivered (example_posts (clock w0))"
    by (simp add: public_client_def)
  have z: "iter_messages_reply zoned_client foo (clock w0) = delivered (zoned_posts (clock w0))"
    by (simp add: zoned_client_def public_client_def)
  have n: "min (length (example_posts (clock w0)))
             (Suc (length (within_24h (clock w0) (map snd (example_posts (clock w0)))))) = 3"
    by (simp add: example_posts_facts) (simp add: example_posts_def)
  have naive: "tzinfo (date (naive_post 1699996400000000 (Some 10))) = None"
    "wall (date (naive_post 1699996400000000 (Some 10))) = 1699996400000000"
    by (simp_all add: naive_post_def)
  have zoned: "recorded_views (within_24h (clock w0) (map snd (zoned_posts (clock w0)))) = [7]"
    "length (within_24h (clock w0) (map snd (zoned_posts (clock w0)))) = 1"
    by (simp_all add: zoned_posts_facts recorded_views_def map_filter_simps)
  show ?thesis
    using get_posts_last_24h [OF d s example_posts_facts(1)] n naive
      get_posts_last_24h [OF d z zoned_posts_facts(1)] zoned
    by (simp add: numeral_3_eq_3 example_posts_facts(2) recorded_views_examples)
qed

text \<open>
  C2, as the claim states it, fails: with two posts in the window that carry 10 views
  (one hour old) and 20 views (two hours old), the most recent recorded count is 10 and
  the scan returns 20.
\<close>

theorem get_posts_most_recent_counterexample:
  "deadline w0 = None \<and>
   iter_messages_reply two_viewed_client foo (clock w0) = delivered (two_viewed_posts (clock w0)) \<and>
   newest_first (map snd (two_viewed_posts (clock w0))) \<and>
   hd (recorded_views (within_24h (clock w0) (map snd (two_viewed_posts (clock w0))))) = 10 \<and>
   fst (get_posts two_viewed_client foo w0) = Inr (20, 2)"
proof -
  have d: "deadline w0 = None" by (simp add: w0_def)
  have s: "iter_messages_reply two_viewed_client foo (clock w0)
             = delivered (two_viewed_posts (clock w0))"
    by (simp add: two_viewed_client_def public_client_def)
  have r: "fst (get_posts two_viewed_client foo w0) = Inr (20, 2)"
    using get_posts_delivered(1) [OF d s two_viewed_posts_facts(1)]
    by (simp add: two_viewed_posts_facts recorded_views_examples)
  show ?thesis
    using d s r by (simp add: two_viewed_posts_facts recorded_views_examples)
qed

text \<open>
  C2, amended. On a stream that lists its posts newest first and arrives whole, with at
  least one post of the window carrying a view count, the views returned are the view
  count of the oldest such post: the last one in stream order.
\<close>

theorem get_posts_views_oldest_recorded:
  assumes "deadline w = None"
      and "iter_messages_reply client ent (clock w) = delivered stream"
      and "newest_first (map snd stream)"
      and "recorded_views (within_24h (clock w) (map snd stream)) \<noteq> []"
  shows "fst (get_posts client ent w) =
           Inr (last (recorded_views (within_24h (clock w) (map snd stream))),
                int (length (within_24h (clock w) (map snd stream))))"
  using get_posts_delivered(1) [OF assms(1-3)] assms(4) by simp

theorem get_posts_views_oldest_recorded_witness:
  "recorded_views (within_24h (clock w0) (map snd (two_viewed_posts (clock w0)))) = [10, 20] \<and>
   fst (get_posts two_viewed_client foo w0) = Inr (20, 2)"
proof -
  have d: "deadline w0 = None" by (simp add: w0_def)
  have s: "iter_messages_reply two_viewed_client foo (clock w0)
             = delivered (two_viewed_posts (clock w0))"
    by (simp add: two_viewed_client_def public_client_def)
  have v: "recorded_views (within_24h (clock w0) (map snd (two_viewed_posts (clock w0))))
             = [10, 20]"
    by (simp add: two_viewed_posts_facts recorded_views_examples)
  have ne: "recorded_views (within_24h (clock w0) (map snd (two_viewed_posts (clock w0)))) \<noteq> []"
    using v by simp
  show ?thesis
    using get_posts_views_oldest_recorded [OF d s two_viewed_posts_facts(1) ne] v
    by (simp add: two_viewed_posts_facts)
qed

section \<open>Deadlines\<close>



lemma steadyD:
  "steady m \<Longrightarrow> m w = (r, w') \<Longrightarrow>
   deadline w' = deadline w \<and> clock w \<le> clock w' \<and> marked w' = marked w \<and> released w' = released w"
  unfolding steady_def by blast

lemma cut_atD:
  "cut_at t m \<Longrightarrow> deadline w = None \<Longrightarrow> clock w < t \<Longrightarrow> m w = (r, w') \<Longrightarrow>
   m (w\<lparr>deadline := Some t\<rparr>) = (rd, wd) \<Longrightarrow>
   (if clock w' < t then rd = r \<and> wd = w'\<lparr>deadline := Some t\<rparr> else rd = Inl CancelledError)"
  unfolding cut_at_def by blast

lemma steady_return: "steady (return x)"
  by (simp add: steady_def return_def)

lemma steady_raise: "steady (raise e)"
  by (simp add: steady_def raise_def)

lemma steady_remote: "steady (remote rq reply)"
  by (auto simp: steady_def remote_def past_deadline_def split: option.splits sum.splits if_splits)

lemma steady_bind:
  assumes "steady m" and "\<And>x. steady (f x)"
  shows "steady (bind m f)"
  unfolding steady_def
proof (intro allI impI)
  fix w r w'
  assume run: "bind m f w = (r, w')"
  obtain r1 w1 where m: "m w = (r1, w1)" by (cases "m w")
  note s1 = steadyD [OF assms(1) m]
  show "deadline w' = deadline w \<and> clock w \<le> clock w' \<and> marked w' = marked w \<and>
        released w' = released w"
  proof (cases r1)
    case (Inl e)
    then show ?thesis using run m s1 by (simp add: bind_def)
  next
    case (Inr x)
    then have "f x w1 = (r, w')" using run m by (simp add: bind_def)
    from steadyD [OF assms(2) this] s1 show ?thesis by simp
  qed
qed

lemma steady_try_except:
  assumes "steady m" and "\<And>e. steady (h e)"
  shows "steady (try_except m h)"
  unfolding steady_def
proof (intro allI impI)
  fix w r w'
  assume run: "try_except m h w = (r, w')"
  obtain r1 w1 where m: "m w = (r1, w1)" by (cases "m w")
  note s1 = steadyD [OF assms(1) m]
  show "deadline w' = deadline w \<and> clock w \<le> clock w' \<and> marked w' = marked w \<and>
        released w' = released w"
  proof (cases r1)
    case (Inr x)
    then show ?thesis using run m s1 by (simp add: try_except_def)
  next
    case (Inl e)
    then have "h e w1 = (r, w')" using run m by (simp add: try_except_def)
    from steadyD [OF assms(2) this] s1 show ?thesis by simp
  qed
qed

lemma cut_return: "cut_at t (return x)"
  by (simp add: cut_at_def return_def)

lemma cut_raise: "cut_at t (raise e)"
  by (simp add: cut_at_def raise_def)

lemma cut_remote: "cut_at t (remote rq reply)"
  by (auto simp: cut_at_def remote_def past_deadline_def split: option.splits sum.splits if_splits)

lemma cut_bind:
  assumes "steady m" and "\<And>x. steady (f x)" and "cut_at t m" and "\<And>x. cut_at t (f x)"
  shows "cut_at t (bind m f)"
  unfolding cut_at_def
proof (intro allI impI)
  fix w r w' rd wd
  assume d: "deadline w = None" and c: "clock w < t"
    and run: "bind m f w = (r, w')" and rund: "bind m f (w\<lparr>deadline := Some t\<rparr>) = (rd, wd)"
  obtain r1 w1 where m: "m w = (r1, w1)" by (cases "m w")
  obtain rd1 wd1 where md: "m (w\<lparr>deadline := Some t\<rparr>) = (rd1, wd1)"
    by (cases "m (w\<lparr>deadline := Some t\<rparr>)")
  note s1 = steadyD [OF assms(1) m]
  note c1 = cut_atD [OF assms(3) d c m md]
  show "if clock w' < t then rd = r \<and> wd = w'\<lparr>deadline := Some t\<rparr> else rd = Inl CancelledError"
  proof (cases r1)
    case (Inl e)
    then have "r = Inl e" "w' = w1" using run m by (simp_all add: bind_def)
    then show ?thesis using c1 rund md Inl by (auto simp: bind_def split: if_splits)
  next
    case (Inr x)
    then have fx: "f x w1 = (r, w')" using run m by (simp add: bind_def)
    note s2 = steadyD [OF assms(2) fx]
    show ?thesis
    proof (cases "clock w1 < t")
      case True
      then have "rd1 = Inr x" "wd1 = w1\<lparr>deadline := Some t\<rparr>" using c1 Inr by simp_all
      then have "f x (w1\<lparr>deadline := Some t\<rparr>) = (rd, wd)" using rund md by (simp add: bind_def)
      from cut_atD [OF assms(4) _ True fx this] s1 d show ?thesis by simp
    next
      case False
      then have "rd1 = Inl CancelledError" using c1 by simp
      then have "rd = Inl CancelledError" using rund md by (simp add: bind_def)
      then show ?thesis using False s2 by simp
    qed
  qed
qed

lemma cut_try_except:
  assumes "steady m" and "\<And>e. steady (h e)" and "cut_at t m" and "\<And>e. cut_at t (h e)"
    and "h CancelledError = raise CancelledError"
  shows "cut_at t (try_except m h)"
  unfolding cut_at_def
proof (intro allI impI)
  fix w r w' rd wd
  assume d: "deadline w = None" and c: "clock w < t"
    and run: "try_except m h w = (r, w')"
    and rund: "try_except m h (w\<lparr>deadline := Some t\<rparr>) = (rd, wd)"
  obtain r1 w1 where m: "m w = (r1, w1)" by (cases "m w")
  obtain rd1 wd1 where md: "m (w\<lparr>deadline := Some t\<rparr>) = (rd1, wd1)"
    by (cases "m (w\<lparr>deadline := Some t\<rparr>)")
  note s1 = steadyD [OF assms(1) m]
  note c1 = cut_atD [OF assms(3) d c m md]
  show "if clock w' < t then rd = r \<and> wd = w'\<lparr>deadline := Some t\<rparr> else rd = Inl CancelledError"
  proof (cases "clock w1 < t")
    case True
    then have same: "rd1 = r1" "wd1 = w1\<lparr>deadline := Some t\<rparr>" using c1 by simp_all
    show ?thesis
    proof (cases r1)
      case (Inr x)
      then have "r = Inr x" "w' = w1" using run m by (simp_all add: try_except_def)
      moreover have "rd = Inr x" "wd = w1\<lparr>deadline := Some t\<rparr>"
        using rund md same Inr by (simp_all add: try_except_def)
      ultimately show ?thesis using True by simp
    next
      case (Inl e)
      then have he: "h e w1 = (r, w')" using run m by (simp add: try_except_def)
      have "h e (w1\<lparr>deadline := Some t\<rparr>) = (rd, wd)"
        using rund md same Inl by (simp add: try_except_def)
      from cut_atD [OF assms(4) _ True he this] s1 d show ?thesis by simp
    qed
  next
    case False
    then have "rd1 = Inl CancelledError" using c1 by simp
    then have rd: "rd = Inl CancelledError"
      using rund md assms(5) by (simp add: try_except_def raise_def)
    have "clock w1 \<le> clock w'"
    proof (cases r1)
      case (Inr x)
      then show ?thesis using run m by (simp add: try_except_def)
    next
      case (Inl e)
      then have "h e w1 = (r, w')" using run m by (simp add: try_except_def)
      from steadyD [OF assms(2) this] show ?thesis by simp
    qed
    then show ?thesis using rd False by simp
  qed
qed



lemma timed_return: "timed t (return x)"
  by (simp add: timed_def steady_return cut_return)

lemma timed_raise: "timed t (raise e)"
  by (simp add: timed_def steady_raise cut_raise)

lemma timed_remote: "timed t (remote rq reply)"
  by (simp add: timed_def steady_remote cut_remote)

lemma timed_bind: "timed t m \<Longrightarrow> (\<And>x. timed t (f x)) \<Longrightarrow> timed t (bind m f)"
  by (simp add: timed_def steady_bind cut_bind)

lemma timed_try_except:
  "timed t m \<Longrightarrow> (\<And>e. timed t (h e)) \<Longrightarrow> h CancelledError = raise CancelledError \<Longrightarrow>
   timed t (try_except m h)"
  by (simp add: timed_def steady_try_except cut_try_except)

lemma timed_prims:
  "timed t (import_chat_invite client h)" "timed t (get_full_channel client ent)"
  "timed t (download_profile_photo client ent)" "timed t (sleep n)"
  by (simp_all add: import_chat_invite_def get_full_channel_def download_profile_photo_def
      sleep_def timed_remote)

lemma timed_get_entity: "timed t (get_entity client url)"
  unfolding timed_def
  by (auto simp: steady_def cut_at_def get_entity_def remote_def past_deadline_def
      split: option.splits sum.splits if_splits)

lemma timed_retry_loop: "timed t (retry_loop n client url)"
proof (induction n)
  case 0
  show ?case by (simp add: timed_return)
next
  case (Suc n)
  have h: "timed t (case e of Library (ValueError m) \<Rightarrow> retry_loop n client url | _ \<Rightarrow> raise e)"
    for e :: exn
    using Suc by (auto split: exn.split lib_error.split simp: timed_raise)
  show ?case
    by (simp, intro timed_bind timed_try_except timed_prims timed_get_entity timed_return h)
      simp
qed

lemma timed_join_private_channel: "timed t (join_private_channel client url)"
proof -
  have h: "timed t (case e of
                  Library (UserAlreadyParticipantError m) \<Rightarrow>
                    bind (get_entity client url) (\<lambda>r. return (Some r))
                | Library (InviteRequestSentError m) \<Rightarrow> retry_loop 3 client url
                | _ \<Rightarrow> raise e)" for e :: exn
    by (auto split: exn.split lib_error.split
        intro!: timed_raise timed_bind timed_get_entity timed_return timed_retry_loop)
  have k: "timed t (case returned of Some r \<Rightarrow> return r | None \<Rightarrow> get_entity client url)"
    for returned :: "entity option option"
    by (auto split: option.split intro!: timed_return timed_get_entity)
  show ?thesis
    unfolding join_private_channel_def
    by (intro timed_bind timed_try_except timed_prims timed_return h k) simp
qed

lemma timed_get_channel_entity: "timed t (get_channel_entity client url)"
proof -
  have h2: "timed t (case e' of
                Library (InviteHashExpiredError m') \<Rightarrow>
                  raise (InvalidChannelLink url (str (InviteHashExpiredError m')))
              | Library (FloodWaitError seconds m') \<Rightarrow> raise (FloodWait seconds)
              | Library (UserDeactivatedBanError m') \<Rightarrow>
                  raise (UserBan (str (UserDeactivatedBanError m')))
              | _ \<Rightarrow> raise e')" for e' :: exn
    by (auto split: exn.split lib_error.split intro!: timed_raise)
  have j: "timed t (try_except (join_private_channel client url)
                      (\<lambda>e'. case e' of
                               Library (InviteHashExpiredError m') \<Rightarrow>
                                 raise (InvalidChannelLink url
                                          (str (InviteHashExpiredError m')))
                             | Library (FloodWaitError seconds m') \<Rightarrow> raise (FloodWait seconds)
                             | Library (UserDeactivatedBanError m') \<Rightarrow>
                                 raise (UserBan (str (UserDeactivatedBanError m')))
                             | _ \<Rightarrow> raise e'))"
    by (intro timed_try_except timed_join_private_channel h2) simp
  have h: "timed t (case e of
                  Library (ValueError m) \<Rightarrow>
                    try_except (join_private_channel client url)
                      (\<lambda>e'. case e' of
                               Library (InviteHashExpiredError m') \<Rightarrow>
                                 raise (InvalidChannelLink url
                                          (str (InviteHashExpiredError m')))
                             | Library (FloodWaitError seconds m') \<Rightarrow> raise (FloodWait seconds)
                             | Library (UserDeactivatedBanError m') \<Rightarrow>
                                 raise (UserBan (str (UserDeactivatedBanError m')))
                             | _ \<Rightarrow> raise e')
                | Library (FloodWaitError seconds m) \<Rightarrow> raise (FloodWait seconds)
                | Library le \<Rightarrow> raise (InvalidChannelLink url (str le))
                | _ \<Rightarrow> raise e)" for e :: exn
    using j by (auto split: exn.split lib_error.split intro!: timed_raise)
  have k: "timed t (case channel_entity of
                            None \<Rightarrow> raise (CannotGetChannelInfo url)
                          | Some ent \<Rightarrow> return ent)" for channel_entity :: "entity option"
    by (auto split: option.split intro!: timed_return timed_raise)
  show ?thesis
    unfolding get_channel_entity_def
    by (intro timed_bind timed_try_except timed_get_entity h k) simp
qed

lemma timed_scan_posts: "timed t (scan_posts zone e items vs n)"
proof (induction items arbitrary: vs n)
  case Nil
  show ?case by (simp add: timed_return)
next
  case (Cons item items)
  show ?case
    by (simp, intro timed_bind timed_remote) (auto intro!: timed_return Cons)
qed

lemma timed_get_posts: "timed t (get_posts client ent)"
proof -
  have s: "steady (scan_posts zone e items 0 0)" and c: "cut_at t (scan_posts zone e items 0 0)"
    for zone e items
    using timed_scan_posts [of t zone e items 0 0] by (simp_all add: timed_def)
  have "steady (get_posts client ent)"
    unfolding steady_def get_posts_def Let_def using s by (auto simp: steady_def)
  moreover have "cut_at t (get_posts client ent)"
    unfolding cut_at_def
  proof (intro allI impI)
    fix w r w' rd wd
    let ?scan = "scan_posts (local_zone w) (minus_timedelta (now_UTC w) (hours 24))
                   (iter_messages_reply client ent (timestamp (local_zone w) (now_UTC w))) 0 0"
    assume d: "deadline w = None" and l: "clock w < t"
      and run: "get_posts client ent w = (r, w')"
      and rund: "get_posts client ent (w\<lparr>deadline := Some t\<rparr>) = (rd, wd)"
    have "?scan w = (r, w')" using run by (simp add: get_posts_def Let_def)
    moreover have "?scan (w\<lparr>deadline := Some t\<rparr>) = (rd, wd)"
      using rund by (simp add: get_posts_def Let_def now_UTC_def)
    ultimately show "if clock w' < t then rd = r \<and> wd = w'\<lparr>deadline := Some t\<rparr>
               else rd = Inl CancelledError"
      by (rule cut_atD [OF c d l])
  qed
  ultimately show ?thesis by (simp add: timed_def)
qed

lemma timed_Parser_get_channel: "timed t (Parser_get_channel client ent url)"
  unfolding Parser_get_channel_def
  by (intro timed_bind timed_prims timed_get_posts) (auto intro!: timed_return)

lemma timed_get_channel_info_internal: "timed t (get_channel_info_internal client request)"
proof -
  have h: "timed t (case e of CancelledError \<Rightarrow> raise e | _ \<Rightarrow> return None)"
    for e :: exn and t
    by (auto split: exn.split intro!: timed_return timed_raise)
  have l: "timed t (if get_logo request
          then try_except (download_profile_photo client ent)
                 (\<lambda>e. case e of CancelledError \<Rightarrow> raise e | _ \<Rightarrow> return None)
          else return None)" for ent
    by (auto intro!: timed_return timed_try_except timed_prims h)
  show ?thesis
    unfolding get_channel_info_internal_def
    by (intro timed_bind timed_get_channel_entity timed_Parser_get_channel timed_return l)
qed

section \<open>Rate limits during resolution\<close>



lemma flood_stopsD:
  "flood_stops T m \<Longrightarrow> m w = (r, w') \<Longrightarrow>
   \<exists>new. trace w' = trace w @ new \<and>
     (\<forall>i rq s msg. i < length new \<longrightarrow> new ! i = rate_limit rq s msg \<longrightarrow>
        r = Inl (T s msg) \<and> Suc i = length new)"
  unfolding flood_stops_def by blast

lemma flood_return: "flood_stops T (return x)"
  by (simp add: flood_stops_def return_def)

lemma flood_raise: "flood_stops T (raise e)"
  by (simp add: flood_stops_def raise_def)

lemma flood_remote: "flood_stops (\<lambda>s msg. Library (FloodWaitError s msg)) (remote rq reply)"
  by (auto simp: flood_stops_def remote_def rate_limit_def split: sum.splits if_splits)

lemma flood_get_entity:
  "flood_stops (\<lambda>s msg. Library (FloodWaitError s msg)) (get_entity client url)"
  by (auto simp: flood_stops_def get_entity_def remote_def rate_limit_def
      split: sum.splits if_splits)

lemma flood_bind:
  assumes "flood_stops T m" and "\<And>x. flood_stops T (f x)"
  shows "flood_stops T (bind m f)"
  unfolding flood_stops_def
proof (intro allI impI)
  fix w r w'
  assume run: "bind m f w = (r, w')"
  obtain r1 w1 where m: "m w = (r1, w1)" by (cases "m w")
  from flood_stopsD [OF assms(1) m] obtain new1 where
    t1: "trace w1 = trace w @ new1" and
    f1: "\<And>i rq s msg. i < length new1 \<Longrightarrow> new1 ! i = rate_limit rq s msg \<Longrightarrow>
            r1 = Inl (T s msg) \<and> Suc i = length new1"
    by blast
  show "\<exists>new. trace w' = trace w @ new \<and>
         (\<forall>i rq s msg. i < length new \<longrightarrow> new ! i = rate_limit rq s msg \<longrightarrow>
            r = Inl (T s msg) \<and> Suc i = length new)"
  proof (cases r1)
    case (Inl e)
    then have res: "r = Inl e" "w' = w1" using run m by (simp_all add: bind_def)
    have "r = Inl (T s msg) \<and> Suc i = length new1"
      if "i < length new1" "new1 ! i = rate_limit rq s msg" for i rq s msg
      using f1 [OF that] Inl res by simp
    then show ?thesis using t1 res by (intro exI [where x = new1]) simp
  next
    case (Inr x)
    then have fx: "f x w1 = (r, w')" using run m by (simp add: bind_def)
    from flood_stopsD [OF assms(2) fx] obtain new2 where
      t2: "trace w' = trace w1 @ new2" and
      f2: "\<And>i rq s msg. i < length new2 \<Longrightarrow> new2 ! i = rate_limit rq s msg \<Longrightarrow>
              r = Inl (T s msg) \<and> Suc i = length new2"
      by blast
    have none1: "\<not> (i < length new1 \<and> new1 ! i = rate_limit rq s msg)" for i rq s msg
      using f1 [of i rq s msg] Inr by auto
    have "r = Inl (T s msg) \<and> Suc i = length (new1 @ new2)"
      if "i < length (new1 @ new2)" "(new1 @ new2) ! i = rate_limit rq s msg" for i rq s msg
    proof (cases "i < length new1")
      case True
      then show ?thesis using that none1 [of i rq s msg] by (simp add: nth_append)
    next
      case False
      then have "i - length new1 < length new2" "new2 ! (i - length new1) = rate_limit rq s msg"
        using that by (simp_all add: nth_append)
      from f2 [OF this] False show ?thesis by auto
    qed
    then show ?thesis using t1 t2 by (intro exI [where x = "new1 @ new2"]) simp
  qed
qed

text \<open>A handler that turns the rate limit \<open>T\<close> of its body into \<open>T'\<close>.\<close>

lemma flood_try_except:
  assumes "flood_stops T m"
    and "\<And>s msg. h (T s msg) = raise (T' s msg)"
    and "\<And>e. (\<forall>s msg. e \<noteq> T s msg) \<Longrightarrow> flood_stops T' (h e)"
  shows "flood_stops T' (try_except m h)"
  unfolding flood_stops_def
proof (intro allI impI)
  fix w r w'
  assume run: "try_except m h w = (r, w')"
  obtain r1 w1 where m: "m w = (r1, w1)" by (cases "m w")
  from flood_stopsD [OF assms(1) m] obtain new1 where
    t1: "trace w1 = trace w @ new1" and
    f1: "\<And>i rq s msg. i < length new1 \<Longrightarrow> new1 ! i = rate_limit rq s msg \<Longrightarrow>
            r1 = Inl (T s msg) \<and> Suc i = length new1"
    by blast
  show "\<exists>new. trace w' = trace w @ new \<and>
         (\<forall>i rq s msg. i < length new \<longrightarrow> new ! i = rate_limit rq s msg \<longrightarrow>
            r = Inl (T' s msg) \<and> Suc i = length new)"
  proof (cases r1)
    case (Inr x)
    then have "r = r1" "w' = w1" using run m by (simp_all add: try_except_def)
    then show ?thesis using t1 f1 Inr by (intro exI [where x = new1]) auto
  next
    case (Inl e)
    then have he: "h e w1 = (r, w')" using run m by (simp add: try_except_def)
    show ?thesis
    proof (cases "\<exists>s msg. e = T s msg")
      case True
      then obtain s0 msg0 where e: "e = T s0 msg0" by blast
      then have res: "r = Inl (T' s0 msg0)" "w' = w1"
        using he assms(2) [of s0 msg0] by (simp_all add: raise_def)
      have "r = Inl (T' s msg) \<and> Suc i = length new1"
        if "i < length new1" "new1 ! i = rate_limit rq s msg" for i rq s msg
      proof -
        from f1 [OF that] Inl have "e = T s msg" and l: "Suc i = length new1" by simp_all
        then have "h e = raise (T' s msg)" using assms(2) by simp
        then have "r = Inl (T' s msg)" using he by (simp add: raise_def)
        then show ?thesis using l by simp
      qed
      then show ?thesis using t1 res by (intro exI [where x = new1]) simp
    next
      case False
      then have ne: "\<forall>s msg. e \<noteq> T s msg" by blast
      from flood_stopsD [OF assms(3) [OF ne] he] obtain new2 where
        t2: "trace w' = trace w1 @ new2" and
        f2: "\<And>i rq s msg. i < length new2 \<Longrightarrow> new2 ! i = rate_limit rq s msg \<Longrightarrow>
                r = Inl (T' s msg) \<and> Suc i = length new2"
        by blast
      have none1: "\<not> (i < length new1 \<and> new1 ! i = rate_limit rq s msg)" for i rq s msg
        using f1 [of i rq s msg] Inl ne by auto
      have "r = Inl (T' s msg) \<and> Suc i = length (new1 @ new2)"
        if "i < length (new1 @ new2)" "(new1 @ new2) ! i = rate_limit rq s msg" for i rq s msg
      proof (cases "i < length new1")
        case True
        then show ?thesis using that none1 [of i rq s msg] by (simp add: nth_append)
      next
        case False
        then have "i - length new1 < length new2"
          "new2 ! (i - length new1) = rate_limit rq s msg"
          using that by (simp_all add: nth_append)
        from f2 [OF this] False show ?thesis by auto
      qed
      then show ?thesis using t1 t2 by (intro exI [where x = "new1 @ new2"]) simp
    qed
  qed
qed


lemma flood_prims:
  "flood_stops raw (import_chat_invite client h)" "flood_stops raw (sleep n)"
  by (simp_all add: import_chat_invite_def sleep_def flood_remote)

lemma flood_retry_loop: "flood_stops raw (retry_loop n client url)"
proof (induction n)
  case 0
  show ?case by (simp add: flood_return)
next
  case (Suc n)
  have h: "flood_stops raw
             (case e of Library (ValueError m) \<Rightarrow> retry_loop n client url | _ \<Rightarrow> raise e)"
    for e :: exn
    using Suc by (auto split: exn.split lib_error.split simp: flood_raise)
  show ?case
    by (simp, intro flood_bind flood_try_except [where T = raw] flood_prims flood_get_entity
        flood_return h)
      (simp add: raise_def)
qed

lemma flood_join_private_channel: "flood_stops raw (join_private_channel client url)"
proof -
  have h: "flood_stops raw (case e of
                  Library (UserAlreadyParticipantError m) \<Rightarrow>
                    bind (get_entity client url) (\<lambda>r. return (Some r))
                | Library (InviteRequestSentError m) \<Rightarrow> retry_loop 3 client url
                | _ \<Rightarrow> raise e)" for e :: exn
    by (auto split: exn.split lib_error.split
        intro!: flood_raise flood_bind flood_get_entity flood_return flood_retry_loop)
  have k: "flood_stops raw
             (case returned of Some r \<Rightarrow> return r | None \<Rightarrow> get_entity client url)"
    for returned :: "entity option option"
    by (auto split: option.split intro!: flood_return flood_get_entity)
  show ?thesis
    unfolding join_private_channel_def
    by (intro flood_bind flood_try_except [where T = raw] flood_prims flood_return h k) simp
qed

lemma flood_get_channel_entity:
  "flood_stops (\<lambda>s msg. FloodWait s) (get_channel_entity client url)"
proof -
  let ?T' = "\<lambda>s (msg :: string). FloodWait s"
  let ?h2 = "\<lambda>e'. case e' of
                Library (InviteHashExpiredError m') \<Rightarrow>
                  raise (InvalidChannelLink url (str (InviteHashExpiredError m')))
              | Library (FloodWaitError seconds m') \<Rightarrow> raise (FloodWait seconds)
              | Library (UserDeactivatedBanError m') \<Rightarrow>
                  raise (UserBan (str (UserDeactivatedBanError m')))
              | _ \<Rightarrow> raise e'"
  have h2: "flood_stops ?T' (?h2 e' :: entity option io)" for e' :: exn
    by (auto split: exn.split lib_error.split intro!: flood_raise)
  have j: "flood_stops ?T' (try_except (join_private_channel client url) ?h2)"
    by (rule flood_try_except [where T = raw, OF flood_join_private_channel])
      (simp_all add: h2)
  let ?h = "\<lambda>e. case e of
                  Library (ValueError m) \<Rightarrow> try_except (join_private_channel client url) ?h2
                | Library (FloodWaitError seconds m) \<Rightarrow> raise (FloodWait seconds)
                | Library le \<Rightarrow> raise (InvalidChannelLink url (str le))
                | _ \<Rightarrow> raise e"
  have h: "flood_stops ?T' (?h e)" for e :: exn
    using j by (auto split: exn.split lib_error.split intro!: flood_raise)
  have k: "flood_stops ?T' (case channel_entity of
                            None \<Rightarrow> raise (CannotGetChannelInfo url)
                          | Some ent \<Rightarrow> return ent)" for channel_entity :: "entity option"
    by (auto split: option.split intro!: flood_return flood_raise)
  have "flood_stops ?T' (try_except (get_entity client url) ?h)"
    by (rule flood_try_except [where T = raw, OF flood_get_entity]) (simp_all add: h)
  then show ?thesis
    unfolding get_channel_entity_def by (intro flood_bind k)
qed

section \<open>The queued join request\<close>




lemma remote_answer:
  "deadline w = None \<Longrightarrow>
   remote rq reply w =
     (answer (snd reply),
      w\<lparr>clock := clock w + int (fst reply), trace := trace w @ [Ev rq (ended (snd reply))]\<rparr>)"
  by (simp add: remote_def past_deadline_def answer_def ended_def split: sum.splits)

lemma get_entity_answer:
  "deadline w = None \<Longrightarrow>
   get_entity client url w =
     (answer (snd (get_entity_reply client (lookups w) url)),
      w\<lparr>lookups := Suc (lookups w),
        clock := clock w + int (fst (get_entity_reply client (lookups w) url)),
        trace := trace w @ [looked_up url (snd (get_entity_reply client (lookups w) url))]\<rparr>)"
  by (simp add: get_entity_def remote_answer looked_up_def)

lemma sleep_done:
  "deadline w = None \<Longrightarrow>
   sleep n w = (Inr (), w\<lparr>clock := clock w + int (n * 1000000),
                          trace := trace w @ [Ev (Sleep n) Ok]\<rparr>)"
  by (simp add: sleep_def remote_answer answer_def ended_def)

text \<open>One round of the loop: sleep, look up, and go on only after "not found".\<close>

lemma retry_loop_Suc:
  assumes "deadline w = None"
  shows "retry_loop (Suc n) client url w =
     (let rep = get_entity_reply client (lookups w) url;
          w2 = w\<lparr>lookups := Suc (lookups w),
                 clock := clock w + 10000000 + int (fst rep),
                 trace := trace w @ [Ev (Sleep 10) Ok, looked_up url (snd rep)]\<rparr>
      in if not_found (snd rep) then retry_loop n client url w2
         else (case snd rep of Inl e \<Rightarrow> Inl (Library e) | Inr x \<Rightarrow> Inr (Some x), w2))"
  using assms
  by (simp add: bind_def try_except_def sleep_done get_entity_answer answer_def not_found_def
      return_def raise_def Let_def split: sum.splits lib_error.splits)


lemma join_private_channel_queued_run:
  assumes "deadline w = None" and "queued client url msg"
  shows "join_private_channel client url w =
     (let w1 = w\<lparr>clock := clock w + int (fst (import_chat_invite_reply client (invite_hash_of url))),
                 trace := trace w @ [Ev (ImportChatInviteRequest (invite_hash_of url))
                                       (Failed (InviteRequestSentError msg))]\<rparr>
      in case retry_loop 3 client url w1 of
           (Inl e, w2) \<Rightarrow> (Inl e, w2)
         | (Inr (Some r), w2) \<Rightarrow> (Inr r, w2)
         | (Inr None, w2) \<Rightarrow> get_entity client url w2)"
  using assms
  by (simp add: join_private_channel_def bind_def try_except_def import_chat_invite_def
      remote_answer answer_def ended_def queued_def return_def Let_def
      split: prod.splits sum.splits option.splits)

text \<open>
  C5, amended. After a join request that the platform queues for approval (and with no
  deadline in the way), \<^verbatim>\<open>join_private_channel\<close> makes at most three retry lookups,
  each after a sleep of 10 seconds, and stops at the first one that does not report
  "not found": its entity is returned, its error is raised. Only when all three report
  "not found" does it make one more lookup, without a sleep, whose entity or error is
  what the caller gets.
\<close>

theorem join_private_channel_queued:
  assumes "deadline w = None" and "queued client url msg"
  shows "(\<not> not_found (lookup_reply client url w 0) \<longrightarrow>
            fst (join_private_channel client url w) = answer (lookup_reply client url w 0) \<and>
            new_events w (snd (join_private_channel client url w)) =
              [Ev (ImportChatInviteRequest (invite_hash_of url))
                 (Failed (InviteRequestSentError msg)),
               Ev (Sleep 10) Ok, looked_up url (lookup_reply client url w 0)]) \<and>
         (not_found (lookup_reply client url w 0) \<and> \<not> not_found (lookup_reply client url w 1) \<longrightarrow>
            fst (join_private_channel client url w) = answer (lookup_reply client url w 1) \<and>
            new_events w (snd (join_private_channel client url w)) =
              [Ev (ImportChatInviteRequest (invite_hash_of url))
                 (Failed (InviteRequestSentError msg)),
               Ev (Sleep 10) Ok, looked_up url (lookup_reply client url w 0),
               Ev (Sleep 10) Ok, looked_up url (lookup_reply client url w 1)]) \<and>
         (not_found (lookup_reply client url w 0) \<and> not_found (lookup_reply client url w 1) \<and>
          \<not> not_found (lookup_reply client url w 2) \<longrightarrow>
            fst (join_private_channel client url w) = answer (lookup_reply client url w 2) \<and>
            new_events w (snd (join_private_channel client url w)) =
              [Ev (ImportChatInviteRequest (invite_hash_of url))
                 (Failed (InviteRequestSentError msg)),
               Ev (Sleep 10) Ok, looked_up url (lookup_reply client url w 0),
               Ev (Sleep 10) Ok, looked_up url (lookup_reply client url w 1),
               Ev (Sleep 10) Ok, looked_up url (lookup_reply client url w 2)]) \<and>
         (not_found (lookup_reply client url w 0) \<and> not_found (lookup_reply client url w 1) \<and>
          not_found (lookup_reply client url w 2) \<longrightarrow>
            fst (join_private_channel client url w) = answer (lookup_reply client url w 3) \<and>
            new_events w (snd (join_private_channel client url w)) =
              [Ev (ImportChatInviteRequest (invite_hash_of url))
                 (Failed (InviteRequestSentError msg)),
               Ev (Sleep 10) Ok, looked_up url (lookup_reply client url w 0),
               Ev (Sleep 10) Ok, looked_up url (lookup_reply client url w 1),
               Ev (Sleep 10) Ok, looked_up url (lookup_reply client url w 2),
               looked_up url (lookup_reply client url w 3)])"
proof -
  note run = join_private_channel_queued_run [OF assms]
  note simps = run numeral_3_eq_3 retry_loop_Suc retry_loop.simps(1) Let_def lookup_reply_def
    get_entity_answer new_events_def return_def
  have c0: "\<not> not_found (lookup_reply client url w 0) \<longrightarrow>
            fst (join_private_channel client url w) = answer (lookup_reply client url w 0) \<and>
            new_events w (snd (join_private_channel client url w)) =
              [Ev (ImportChatInviteRequest (invite_hash_of url))
                 (Failed (InviteRequestSentError msg)),
               Ev (Sleep 10) Ok, looked_up url (lookup_reply client url w 0)]"
    using assms(1)
    by (simp del: retry_loop.simps add: simps) (simp add: answer_def split: sum.splits)
  have c1: "not_found (lookup_reply client url w 0) \<and> \<not> not_found (lookup_reply client url w 1) \<longrightarrow>
            fst (join_private_channel client url w) = answer (lookup_reply client url w 1) \<and>
            new_events w (snd (join_private_channel client url w)) =
              [Ev (ImportChatInviteRequest (invite_hash_of url))
                 (Failed (InviteRequestSentError msg)),
               Ev (Sleep 10) Ok, looked_up url (lookup_reply client url w 0),
               Ev (Sleep 10) Ok, looked_up url (lookup_reply client url w 1)]"
    using assms(1)
    by (simp del: retry_loop.simps add: simps) (simp add: answer_def split: sum.splits)
  have c2: "not_found (lookup_reply client url w 0) \<and> not_found (lookup_reply client url w 1) \<and>
          \<not> not_found (lookup_reply client url w 2) \<longrightarrow>
            fst (join_private_channel client url w) = answer (lookup_reply client url w 2) \<and>
            new_events w (snd (join_private_channel client url w)) =
              [Ev (ImportChatInviteRequest (invite_hash_of url))
                 (Failed (InviteRequestSentError msg)),
               Ev (Sleep 10) Ok, looked_up url (lookup_reply client url w 0),
               Ev (Sleep 10) Ok, looked_up url (lookup_reply client url w 1),
               Ev (Sleep 10) Ok, looked_up url (lookup_reply client url w 2)]"
    using assms(1)
    by (simp del: retry_loop.simps add: simps) (simp add: answer_def split: sum.splits)
  have c3: "not_found (lookup_reply client url w 0) \<and> not_found (lookup_reply client url w 1) \<and>
          not_found (lookup_reply client url w 2) \<longrightarrow>
            fst (join_private_channel client url w) = answer (lookup_reply client url w 3) \<and>
            new_events w (snd (join_private_channel client url w)) =
              [Ev (ImportChatInviteRequest (invite_hash_of url))
                 (Failed (InviteRequestSentError msg)),
               Ev (Sleep 10) Ok, looked_up url (lookup_reply client url w 0),
               Ev (Sleep 10) Ok, looked_up url (lookup_reply client url w 1),
               Ev (Sleep 10) Ok, looked_up url (lookup_reply client url w 2),
               looked_up url (lookup_reply client url w 3)]"
    using assms(1)
    by (simp del: retry_loop.simps add: simps)
  show ?thesis using c0 c1 c2 c3 by blast
qed

theorem join_private_channel_queued_witness:
  "fst (join_private_channel (queued_client 9) ''https://t.me/+abc'' w0)
     = Inl (Library (ValueError ''not found'')) \<and>
   new_events w0 (snd (join_private_channel (queued_client 9) ''https://t.me/+abc'' w0)) =
     [Ev (ImportChatInviteRequest ''abc'') (Failed (InviteRequestSentError ''sent'')),
      Ev (Sleep 10) Ok, Ev (GetEntity ''https://t.me/+abc'') (Failed (ValueError ''not found'')),
      Ev (Sleep 10) Ok, Ev (GetEntity ''https://t.me/+abc'') (Failed (ValueError ''not found'')),
      Ev (Sleep 10) Ok, Ev (GetEntity ''https://t.me/+abc'') (Failed (ValueError ''not found'')),
      Ev (GetEntity ''https://t.me/+abc'') (Failed (ValueError ''not found''))] \<and>
   fst (join_private_channel (queued_client 1) ''https://t.me/+abc'' w0) = Inr (Some foo) \<and>
   new_events w0 (snd (join_private_channel (queued_client 1) ''https://t.me/+abc'' w0)) =
     [Ev (ImportChatInviteRequest ''abc'') (Failed (InviteRequestSentError ''sent'')),
      Ev (Sleep 10) Ok, Ev (GetEntity ''https://t.me/+abc'') (Failed (ValueError ''not found'')),
      Ev (Sleep 10) Ok, Ev (GetEntity ''https://t.me/+abc'') Ok]"
proof -
  have d: "deadline w0 = None" by (simp add: w0_def)
  have q: "queued (queued_client n) ''https://t.me/+abc'' ''sent''" for n
    by (simp add: queued_def queued_client_def public_client_def)
  have h: "invite_hash_of ''https://t.me/+abc'' = ''abc''"
    by (simp add: invite_hash_of_def last_segment_def startswith_def)
  have r: "lookup_reply (queued_client n) ''https://t.me/+abc'' w0 k
              = (if k < n then Inl (ValueError ''not found'') else Inr (Some foo))" for n k
    by (simp add: lookup_reply_def queued_client_def public_client_def w0_def)
  show ?thesis
    using join_private_channel_queued [OF d q [of 9]] join_private_channel_queued [OF d q [of 1]]
    by (simp add: r h not_found_def answer_def looked_up_def ended_def)
qed

text \<open>
  C5, as the claim states it, fails: the join request is queued and the first retry
  already finds the channel, so the resolution makes one retry lookup, not three.
\<close>

theorem get_channel_entity_three_retries_counterexample:
  "queued (queued_client 1) ''https://t.me/+abc'' ''sent'' \<and>
   fst (get_channel_entity (queued_client 1) ''https://t.me/+abc'' w0) = Inr foo \<and>
   new_events w0 (snd (get_channel_entity (queued_client 1) ''https://t.me/+abc'' w0)) =
     [Ev (GetEntity ''https://t.me/+abc'') (Failed (ValueError ''not found'')),
      Ev (ImportChatInviteRequest ''abc'') (Failed (InviteRequestSentError ''sent'')),
      Ev (Sleep 10) Ok,
      Ev (GetEntity ''https://t.me/+abc'') Ok] \<and>
   length (filter is_lookup
     (new_events w0 (snd (join_private_channel (queued_client 0) ''https://t.me/+abc'' w0))))
     = 1"
  by (simp add: run_defs scenario_defs queued_def is_lookup_def)

section \<open>The deadline of the orchestration\<close>

text \<open>
  C4. When the orchestration, left to run without a deadline, would end 60 seconds or
  more after the request began, \<^verbatim>\<open>get_channel_info\<close> marks the session handle once,
  releases it, and raises the builtin \<^verbatim>\<open>TimeoutError\<close> with its own message: neither
  the \<^verbatim>\<open>asyncio.TimeoutError\<close> of \<^verbatim>\<open>wait_for\<close>, nor the cancellation, nor one of the
  errors that report what the platform answered.
\<close>

theorem get_channel_info_timeout:
  assumes "deadline w = None"
      and "clock w + 60000000 \<le> clock (snd (get_channel_info_internal client request w))"
  shows "fst (get_channel_info client request w) =
           Inl (TimeoutError ''Timeout while getting channel info. Client may be banned'') \<and>
         marked (snd (get_channel_info client request w)) = Suc (marked w) \<and>
         released (snd (get_channel_info client request w)) = Suc (released w) \<and>
         deadline (snd (get_channel_info client request w)) = None \<and>
         fst (get_channel_info client request w) \<noteq> Inl (Library (asyncio_TimeoutError m)) \<and>
         fst (get_channel_info client request w) \<noteq> Inl CancelledError \<and>
         fst (get_channel_info client request w) \<noteq> Inl (FloodWait s) \<and>
         fst (get_channel_info client request w) \<noteq> Inl (UserBan d) \<and>
         fst (get_channel_info client request w) \<noteq> Inl (InvalidChannelLink l d) \<and>
         fst (get_channel_info client request w) \<noteq> Inl (CannotGetChannelInfo l)"
proof -
  let ?t = "clock w + 60000000"
  let ?m = "get_channel_info_internal client request"
  obtain r w' where run: "?m w = (r, w')" by (cases "?m w")
  obtain rd wd where rund: "?m (w\<lparr>deadline := Some ?t\<rparr>) = (rd, wd)"
    by (cases "?m (w\<lparr>deadline := Some ?t\<rparr>)")
  have t: "timed ?t ?m" by (rule timed_get_channel_info_internal)
  then have st: "steady ?m" and cut: "cut_at ?t ?m" by (simp_all add: timed_def)
  have late: "\<not> clock w' < ?t" using assms(2) run by simp
  have "rd = Inl CancelledError"
    using cut_atD [OF cut assms(1) _ run rund] late by simp
  moreover have "marked wd = marked w" "released wd = released w"
    using steadyD [OF st rund] by simp_all
  ultimately show ?thesis
    using rund assms(1)
    by (simp add: get_channel_info_def with_session_def try_except_def wait_for_def
        mark_as_ban_def bind_def raise_def)
qed

theorem get_channel_info_timeout_witness:
  "fst (get_channel_info stalled_client (foo_request False) w0) =
     Inl (TimeoutError ''Timeout while getting channel info. Client may be banned'') \<and>
   marked (snd (get_channel_info stalled_client (foo_request False) w0)) = 1 \<and>
   released (snd (get_channel_info stalled_client (foo_request False) w0)) = 1"
proof -
  have d: "deadline w0 = None" by (simp add: w0_def)
  have l: "clock w0 + 60000000
             \<le> clock (snd (get_channel_info_internal stalled_client (foo_request False) w0))"
    by (simp add: run_defs scenario_defs)
  have z: "marked w0 = 0" "released w0 = 0" by (simp_all add: w0_def)
  show ?thesis
    using get_channel_info_timeout [OF d l] z by simp
qed

section \<open>A rate limit ends the resolution\<close>

text \<open>
  C6. Whatever stage of the resolution is answered with a rate limit (the direct lookup,
  the join request, or a lookup of the join protocol), \<^verbatim>\<open>get_channel_entity\<close> raises
  \<^verbatim>\<open>FloodWait\<close> with the seconds the platform named, and the rate-limited operation is
  the last thing it awaited: nothing is retried, and no rate limit came before it.
\<close>

theorem get_channel_entity_rate_limited:
  assumes "get_channel_entity client url w = (r, w')"
      and "rate_limit rq s msg \<in> set (new_events w w')"
  shows "r = Inl (FloodWait s) \<and>
         last (trace w') = rate_limit rq s msg \<and>
         (\<exists>before. new_events w w' = before @ [rate_limit rq s msg] \<and>
            (\<forall>ev \<in> set before. \<forall>rq' s' msg'. ev \<noteq> rate_limit rq' s' msg'))"
proof -
  from flood_stopsD [OF flood_get_channel_entity assms(1)] obtain new where
    t: "trace w' = trace w @ new" and
    f: "\<And>i rq s msg. i < length new \<Longrightarrow> new ! i = rate_limit rq s msg \<Longrightarrow>
          r = Inl (FloodWait s) \<and> Suc i = length new"
    by blast
  have n: "new_events w w' = new" using t by (simp add: new_events_def)
  then obtain i where i: "i < length new" "new ! i = rate_limit rq s msg"
    using assms(2) by (auto simp: in_set_conv_nth)
  note fi = f [OF i]
  have ne: "new \<noteq> []" using i by auto
  from fi have "Suc i = length new" by simp
  then have "i = length new - 1" by arith
  then have l: "last new = rate_limit rq s msg"
    using i ne by (simp add: last_conv_nth)
  have split: "new = butlast new @ [rate_limit rq s msg]"
    using ne l by (metis append_butlast_last_id)
  have before: "ev \<noteq> rate_limit rq' s' msg'" if "ev \<in> set (butlast new)" for ev rq' s' msg'
  proof
    assume e: "ev = rate_limit rq' s' msg'"
    from that obtain j where j: "j < length (butlast new)" "butlast new ! j = ev"
      by (auto simp: in_set_conv_nth)
    then have "j < length new" "new ! j = rate_limit rq' s' msg'"
      using e by (simp_all add: nth_butlast)
    from f [OF this] have "Suc j = length new" by simp
    moreover have "j < length new - 1" using j(1) by simp
    ultimately show False by arith
  qed
  have ex: "\<exists>before. new_events w w' = before @ [rate_limit rq s msg] \<and>
            (\<forall>ev \<in> set before. \<forall>rq' s' msg'. ev \<noteq> rate_limit rq' s' msg')"
    unfolding n using split before by (intro exI [where x = "butlast new"]) blast
  have "last (trace w') = rate_limit rq s msg" using t ne l by simp
  then show ?thesis using fi ex by simp
qed

theorem get_channel_entity_rate_limited_witness:
  "fst (get_channel_entity rate_limited_client ''https://t.me/foo'' w0) = Inl (FloodWait 17) \<and>
   new_events w0 (snd (get_channel_entity rate_limited_client ''https://t.me/foo'' w0)) =
     [rate_limit (GetEntity ''https://t.me/foo'') 17 ''wait''] \<and>
   fst (get_channel_entity join_rate_limited_client ''https://t.me/+abc'' w0)
     = Inl (FloodWait 42) \<and>
   last (trace (snd (get_channel_entity join_rate_limited_client ''https://t.me/+abc'' w0)))
     = rate_limit (ImportChatInviteRequest ''abc'') 42 ''wait''"
proof -
  let ?a = "get_channel_entity rate_limited_client ''https://t.me/foo'' w0"
  let ?b = "get_channel_entity join_rate_limited_client ''https://t.me/+abc'' w0"
  have a: "?a = (fst ?a, snd ?a)" and b: "?b = (fst ?b, snd ?b)" by simp_all
  have ea: "new_events w0 (snd ?a) = [rate_limit (GetEntity ''https://t.me/foo'') 17 ''wait'']"
    by (simp add: run_defs scenario_defs rate_limit_def)
  have eb: "new_events w0 (snd ?b) =
      [Ev (GetEntity ''https://t.me/+abc'') (Failed (ValueError ''not found'')),
       rate_limit (ImportChatInviteRequest ''abc'') 42 ''wait'']"
    by (simp add: run_defs scenario_defs rate_limit_def)
  have ia: "rate_limit (GetEntity ''https://t.me/foo'') 17 ''wait'' \<in> set (new_events w0 (snd ?a))"
    by (simp add: ea)
  have ib: "rate_limit (ImportChatInviteRequest ''abc'') 42 ''wait''
              \<in> set (new_events w0 (snd ?b))"
    by (simp add: eb)
  show ?thesis
    using get_channel_entity_rate_limited [OF a ia] get_channel_entity_rate_limited [OF b ib] ea
    by simp
qed

section \<open>Errors that leave the service untranslated\<close>

text \<open>
  C3. At these inputs \<^verbatim>\<open>get_channel_info\<close> raises a library exception as it is: the
  \<^verbatim>\<open>FloodWaitError\<close> of telethon that answers the profile fetch, and the \<^verbatim>\<open>ValueError\<close>
  of the last lookup of the join protocol.
\<close>

theorem get_channel_info_raises_library_error:
  "fst (get_channel_info flooded_client (foo_request False) w0)
     = Inl (Library (FloodWaitError 30 ''A wait of 30 seconds is required'')) \<and>
   fst (get_channel_info (queued_client 9)
          \<lparr>channel_link = ''https://t.me/+abc'', get_logo = False\<rparr> w0)
     = Inl (Library (ValueError ''not found''))"
  by (simp add: run_defs scenario_defs)

section \<open>The image fetch\<close>

lemma emitsD:
  "emits P m \<Longrightarrow> m w = (r, w') \<Longrightarrow> \<exists>new. trace w' = trace w @ new \<and> list_all P new"
  unfolding emits_def by blast

lemma emits_return: "emits P (return x)"
  by (simp add: emits_def return_def)

lemma emits_raise: "emits P (raise e)"
  by (simp add: emits_def raise_def)

lemma emits_remote: "(\<And>oc. P (Ev rq oc)) \<Longrightarrow> emits P (remote rq reply)"
  by (auto simp: emits_def remote_def split: sum.splits if_splits)

lemma emits_get_entity: "(\<And>oc. P (Ev (GetEntity url) oc)) \<Longrightarrow> emits P (get_entity client url)"
  by (auto simp: emits_def get_entity_def remote_def split: sum.splits if_splits)

lemma emits_bind:
  assumes "emits P m" and "\<And>x. emits P (f x)"
  shows "emits P (bind m f)"
  unfolding emits_def
proof (intro allI impI)
  fix w r w'
  assume run: "bind m f w = (r, w')"
  obtain r1 w1 where m: "m w = (r1, w1)" by (cases "m w")
  from emitsD [OF assms(1) m] obtain new1 where
    t1: "trace w1 = trace w @ new1" "list_all P new1" by blast
  show "\<exists>new. trace w' = trace w @ new \<and> list_all P new"
  proof (cases r1)
    case (Inl e)
    then have "w' = w1" using run m by (simp add: bind_def)
    then show ?thesis using t1 by blast
  next
    case (Inr x)
    then have "f x w1 = (r, w')" using run m by (simp add: bind_def)
    from emitsD [OF assms(2) this] obtain new2 where
      "trace w' = trace w1 @ new2" "list_all P new2" by blast
    then show ?thesis using t1 by (intro exI [where x = "new1 @ new2"]) simp
  qed
qed

lemma emits_try_except:
  assumes "emits P m" and "\<And>e. emits P (h e)"
  shows "emits P (try_except m h)"
  unfolding emits_def
proof (intro allI impI)
  fix w r w'
  assume run: "try_except m h w = (r, w')"
  obtain r1 w1 where m: "m w = (r1, w1)" by (cases "m w")
  from emitsD [OF assms(1) m] obtain new1 where
    t1: "trace w1 = trace w @ new1" "list_all P new1" by blast
  show "\<exists>new. trace w' = trace w @ new \<and> list_all P new"
  proof (cases r1)
    case (Inr x)
    then have "w' = w1" using run m by (simp add: try_except_def)
    then show ?thesis using t1 by blast
  next
    case (Inl e)
    then have "h e w1 = (r, w')" using run m by (simp add: try_except_def)
    from emitsD [OF assms(2) this] obtain new2 where
      "trace w' = trace w1 @ new2" "list_all P new2" by blast
    then show ?thesis using t1 by (intro exI [where x = "new1 @ new2"]) simp
  qed
qed

lemma quiet_prims:
  "emits no_download (import_chat_invite client h)" "emits no_download (sleep n)"
  "emits no_download (get_full_channel client ent)" "emits no_download (get_entity client url)"
  by (auto simp: import_chat_invite_def sleep_def get_full_channel_def is_download_def
      intro!: emits_remote emits_get_entity)

lemma quiet_retry_loop: "emits no_download (retry_loop n client url)"
proof (induction n)
  case 0
  show ?case by (simp add: emits_return)
next
  case (Suc n)
  have h: "emits no_download
             (case e of Library (ValueError m) \<Rightarrow> retry_loop n client url | _ \<Rightarrow> raise e)"
    for e :: exn
    using Suc by (auto split: exn.split lib_error.split simp: emits_raise)
  show ?case
    by (simp, intro emits_bind emits_try_except quiet_prims emits_return h)
qed

lemma quiet_join_private_channel: "emits no_download (join_private_channel client url)"
proof -
  have h: "emits no_download (case e of
                  Library (UserAlreadyParticipantError m) \<Rightarrow>
                    bind (get_entity client url) (\<lambda>r. return (Some r))
                | Library (InviteRequestSentError m) \<Rightarrow> retry_loop 3 client url
                | _ \<Rightarrow> raise e)" for e :: exn
    by (auto split: exn.split lib_error.split
        intro!: emits_raise emits_bind quiet_prims emits_return quiet_retry_loop)
  have k: "emits no_download
             (case returned of Some r \<Rightarrow> return r | None \<Rightarrow> get_entity client url)"
    for returned :: "entity option option"
    by (auto split: option.split intro!: emits_return quiet_prims)
  show ?thesis
    unfolding join_private_channel_def
    by (intro emits_bind emits_try_except quiet_prims emits_return h k)
qed

lemma quiet_get_channel_entity: "emits no_download (get_channel_entity client url)"
proof -
  let ?h2 = "\<lambda>e'. case e' of
                Library (InviteHashExpiredError m') \<Rightarrow>
                  raise (InvalidChannelLink url (str (InviteHashExpiredError m')))
              | Library (FloodWaitError seconds m') \<Rightarrow> raise (FloodWait seconds)
              | Library (UserDeactivatedBanError m') \<Rightarrow>
                  raise (UserBan (str (UserDeactivatedBanError m')))
              | _ \<Rightarrow> raise e'"
  have h2: "emits no_download (?h2 e' :: entity option io)" for e' :: exn
    by (auto split: exn.split lib_error.split intro!: emits_raise)
  have j: "emits no_download (try_except (join_private_channel client url) ?h2)"
    by (intro emits_try_except quiet_join_private_channel h2)
  let ?h = "\<lambda>e. case e of
                  Library (ValueError m) \<Rightarrow> try_except (join_private_channel client url) ?h2
                | Library (FloodWaitError seconds m) \<Rightarrow> raise (FloodWait seconds)
                | Library le \<Rightarrow> raise (InvalidChannelLink url (str le))
                | _ \<Rightarrow> raise e"
  have h: "emits no_download (?h e)" for e :: exn
    using j by (auto split: exn.split lib_error.split intro!: emits_raise)
  have k: "emits no_download (case channel_entity of
                            None \<Rightarrow> raise (CannotGetChannelInfo url)
                          | Some ent \<Rightarrow> return ent)" for channel_entity :: "entity option"
    by (auto split: option.split intro!: emits_return emits_raise)
  show ?thesis
    unfolding get_channel_entity_def
    by (intro emits_bind emits_try_except quiet_prims h k)
qed

lemma quiet_scan_posts: "emits no_download (scan_posts zone e items vs n)"
proof (induction items arbitrary: vs n)
  case Nil
  show ?case by (simp add: emits_return)
next
  case (Cons item items)
  have r: "emits no_download (remote NextMessage item)"
    by (rule emits_remote) (simp add: is_download_def)
  show ?case
    by (simp, intro emits_bind r) (auto intro!: emits_return Cons)
qed

lemma quiet_get_posts: "emits no_download (get_posts client ent)"
  using quiet_scan_posts unfolding emits_def get_posts_def Let_def by blast

lemma quiet_Parser_get_channel: "emits no_download (Parser_get_channel client ent url)"
  unfolding Parser_get_channel_def
  by (intro emits_bind quiet_prims quiet_get_posts) (auto intro!: emits_return)

lemma quiet_internal:
  "\<not> get_logo request \<Longrightarrow> emits no_download (get_channel_info_internal client request)"
  unfolding get_channel_info_internal_def
  by (simp, intro emits_bind quiet_get_channel_entity quiet_Parser_get_channel emits_return)

lemma snd_wait_for:
  "snd (wait_for m t w) =
     (snd (m (w\<lparr>deadline := Some (clock w + int t * 1000000)\<rparr>)))\<lparr>deadline := deadline w\<rparr>"
  by (simp add: wait_for_def split: prod.splits sum.splits exn.splits)

lemma emits_wait_for:
  assumes "emits P m"
  shows "emits P (wait_for m t)"
  unfolding emits_def
proof (intro allI impI)
  fix w r w'
  assume run: "wait_for m t w = (r, w')"
  let ?wd = "w\<lparr>deadline := Some (clock w + int t * 1000000)\<rparr>"
  obtain r1 w1 where m: "m ?wd = (r1, w1)" by (cases "m ?wd")
  from emitsD [OF assms m] obtain new where "trace w1 = trace w @ new" "list_all P new"
    by auto
  moreover have "w' = w1\<lparr>deadline := deadline w\<rparr>"
    using snd_wait_for [of m t w] run m by simp
  ultimately show "\<exists>new. trace w' = trace w @ new \<and> list_all P new" by simp
qed

lemma emits_mark_as_ban: "emits P mark_as_ban"
  by (simp add: emits_def mark_as_ban_def)

lemma emits_with_session: "emits P m \<Longrightarrow> emits P (with_session m)"
  unfolding emits_def with_session_def by (fastforce split: prod.splits)

lemma quiet_get_channel_info:
  assumes "\<not> get_logo request"
  shows "emits no_download (get_channel_info client request)"
proof -
  have h: "emits no_download (case e of
              Library (asyncio_TimeoutError m) \<Rightarrow>
                bind mark_as_ban (\<lambda>_.
                  raise (TimeoutError
                    ''Timeout while getting channel info. Client may be banned''))
            | _ \<Rightarrow> (raise e :: GetChannelInfoResponse io))" for e :: exn
    by (auto split: exn.split lib_error.split
        intro!: emits_raise emits_bind emits_mark_as_ban)
  show ?thesis
    unfolding get_channel_info_def
    by (intro emits_with_session emits_try_except emits_wait_for quiet_internal assms h)
qed

lemma internal_without_logo:
  "\<not> get_logo request \<Longrightarrow> get_channel_info_internal client request w = (Inr resp, w') \<Longrightarrow>
   logo resp = None"
  by (auto simp: get_channel_info_internal_def bind_def return_def
      split: prod.splits sum.splits)

lemma get_channel_info_Inr:
  assumes "fst (get_channel_info client request w) = Inr resp"
  shows "fst (get_channel_info_internal client request
                (w\<lparr>deadline := Some (clock w + 60000000)\<rparr>)) = Inr resp"
proof -
  let ?wd = "w\<lparr>deadline := Some (clock w + 60000000)\<rparr>"
  obtain r1 w1 where m: "get_channel_info_internal client request ?wd = (r1, w1)"
    by (cases "get_channel_info_internal client request ?wd")
  show ?thesis
  proof (cases r1)
    case (Inr x)
    then show ?thesis
      using assms m
      by (simp add: get_channel_info_def with_session_def try_except_def wait_for_def)
  next
    case (Inl e)
    then have "\<exists>e'. fst (get_channel_info client request w) = Inl e'"
      using m
      by (cases e)
        (auto simp: get_channel_info_def with_session_def try_except_def wait_for_def
          bind_def raise_def mark_as_ban_def split: lib_error.splits)
    then show ?thesis using assms by simp
  qed
qed

lemma internal_logo_swallowed:
  assumes "get_logo request"
      and "get_channel_entity client (channel_link request) w = (Inr ent, w1)"
      and "download_profile_photo client ent w1 = (Inl (Library e), w2)"
  shows "get_channel_info_internal client request w =
           bind (Parser_get_channel client ent (channel_link request))
             (\<lambda>ch. return \<lparr>channel = ch, logo = None\<rparr>) w2"
  using assms
  by (simp add: get_channel_info_internal_def bind_def try_except_def return_def)

text \<open>
  C8. A request with \<^verbatim>\<open>get_logo\<close> false awaits no image fetch, and its response, when
  there is one, has no logo. When \<^verbatim>\<open>get_logo\<close> is true and the image fetch raises a
  library exception, the orchestration goes on from there as if the fetch had found no
  image: it builds the profile and returns it with no logo, so the request succeeds
  whenever the profile can be built.
\<close>

theorem logo_is_best_effort:
  "(\<not> get_logo request \<longrightarrow>
      filter is_download (new_events w (snd (get_channel_info client request w))) = [] \<and>
      (\<forall>resp. fst (get_channel_info client request w) = Inr resp \<longrightarrow> logo resp = None)) \<and>
   (get_logo request \<and>
    get_channel_entity client (channel_link request) w = (Inr ent, w1) \<and>
    download_profile_photo client ent w1 = (Inl (Library e), w2) \<longrightarrow>
      get_channel_info_internal client request w =
        bind (Parser_get_channel client ent (channel_link request))
          (\<lambda>ch. return \<lparr>channel = ch, logo = None\<rparr>) w2) \<and>
   (get_logo request \<and>
    get_channel_entity client (channel_link request)
      (w\<lparr>deadline := Some (clock w + 60000000)\<rparr>) = (Inr ent, w1) \<and>
    download_profile_photo client ent w1 = (Inl (Library e), w2) \<and>
    Parser_get_channel client ent (channel_link request) w2 = (Inr ch, w3) \<longrightarrow>
      fst (get_channel_info client request w) = Inr \<lparr>channel = ch, logo = None\<rparr>)"
proof -
  have a: "filter is_download (new_events w (snd (get_channel_info client request w))) = []"
    if "\<not> get_logo request"
  proof -
    obtain r w' where run: "get_channel_info client request w = (r, w')"
      by (cases "get_channel_info client request w")
    from emitsD [OF quiet_get_channel_info [OF that] run] obtain new where
      "trace w' = trace w @ new" "list_all no_download new" by blast
    then show ?thesis using run by (simp add: new_events_def filter_empty_conv list_all_iff)
  qed
  have b: "logo resp = None"
    if "\<not> get_logo request" "fst (get_channel_info client request w) = Inr resp" for resp
  proof -
    let ?wd = "w\<lparr>deadline := Some (clock w + 60000000)\<rparr>"
    from get_channel_info_Inr [OF that(2)]
    have "get_channel_info_internal client request ?wd =
            (Inr resp, snd (get_channel_info_internal client request ?wd))"
      by (metis prod.collapse)
    from internal_without_logo [OF that(1) this] show ?thesis .
  qed
  have c: "fst (get_channel_info client request w) = Inr \<lparr>channel = ch, logo = None\<rparr>"
    if "get_logo request"
      "get_channel_entity client (channel_link request)
         (w\<lparr>deadline := Some (clock w + 60000000)\<rparr>) = (Inr ent, w1)"
      "download_profile_photo client ent w1 = (Inl (Library e), w2)"
      "Parser_get_channel client ent (channel_link request) w2 = (Inr ch, w3)"
    using internal_logo_swallowed [OF that(1-3)] that(4)
    by (simp add: get_channel_info_def with_session_def try_except_def wait_for_def
        bind_def return_def)
  show ?thesis
    using a b c internal_logo_swallowed [of request client w ent w1 e w2] by blast
qed

theorem logo_is_best_effort_witness:
  "filter is_download
     (new_events w0 (snd (get_channel_info public_client (foo_request False) w0))) = [] \<and>
   fst (get_channel_info public_client (foo_request False) w0) =
     Inr \<lparr>channel = \<lparr>channel_id = 7, link = ''t.me/foo'', name = ''Foo'',
                      description = ''about foo'', subscribers = 5, views = 10,
                      posts_count = 2\<rparr>,
          logo = None\<rparr> \<and>
   Ev (DownloadProfilePhoto foo) (Failed (OtherError ''no photo''))
     \<in> set (new_events w0 (snd (get_channel_info public_client (foo_request True) w0))) \<and>
   fst (get_channel_info public_client (foo_request True) w0) =
     Inr \<lparr>channel = \<lparr>channel_id = 7, link = ''t.me/foo'', name = ''Foo'',
                      description = ''about foo'', subscribers = 5, views = 10,
                      posts_count = 2\<rparr>,
          logo = None\<rparr>"
proof -
  let ?url = "''https://t.me/foo''"
  let ?wd = "w0\<lparr>deadline := Some (clock w0 + 60000000)\<rparr>"
  let ?w1 = "snd (get_channel_entity public_client ?url ?wd)"
  let ?w2 = "snd (download_profile_photo public_client foo ?w1)"
  let ?run = "Parser_get_channel public_client foo ?url ?w2"
  let ?ch = "\<lparr>channel_id = 7, link = ''t.me/foo'', name = ''Foo'',
              description = ''about foo'', subscribers = 5, views = 10, posts_count = 2\<rparr>"
  have off: "\<not> get_logo (foo_request False)" and on: "get_logo (foo_request True)"
    and l: "channel_link (foo_request True) = ?url"
    by (simp_all add: foo_request_def)
  have e: "get_channel_entity public_client ?url ?wd = (Inr foo, ?w1)"
    by (simp add: run_defs scenario_defs)
  have d: "download_profile_photo public_client foo ?w1
             = (Inl (Library (OtherError ''no photo'')), ?w2)"
    by (simp add: run_defs scenario_defs)
  have p: "?run = (Inr ?ch, snd ?run)"
    by (simp add: run_defs scenario_defs)
  have plain: "fst (get_channel_info public_client (foo_request False) w0) =
                 Inr \<lparr>channel = ?ch, logo = None\<rparr>"
    by (simp add: run_defs scenario_defs)
  have ev: "Ev (DownloadProfilePhoto foo) (Failed (OtherError ''no photo''))
     \<in> set (new_events w0 (snd (get_channel_info public_client (foo_request True) w0)))"
    by (simp add: run_defs scenario_defs)
  show ?thesis
    using logo_is_best_effort [of "foo_request False" w0 public_client]
      logo_is_best_effort [of "foo_request True" w0 public_client foo ?w1
        "OtherError ''no photo''" ?w2 ?ch "snd ?run"]
      off on l e d p plain ev
    by simp
qed

end
